theory Spec2Isabelle
  imports Complex_Main
begin

section \<open>Data model of the Pong game server\<close>

text \<open>
  The server is a single-threaded JavaScript program: every handler (an inbound frame, a
  socket close, a timer callback) runs to completion before the next one starts. The model
  is a shallow embedding with explicit state passing. JavaScript numbers that take part in
  the physics are modelled as mathematical reals; the one place where a non-finite number
  can enter the state (the \<open>x\<close> field of a \<open>paddle\<close> frame) uses the type \<open>jsnum\<close> below.
  What a handler takes from its environment is a parameter of its model: the reading
  \<open>now\<close> of the clock (one reading for the whole handler), the values of
  \<open>Math.random()\<close>, and the identifiers \<open>uuidv4()\<close> returns.
\<close>

datatype side = Top | Bottom

datatype phase = Countdown | Playing | Between | Gameover

text \<open>A JavaScript number: finite, one of the two infinities, or NaN.\<close>

datatype jsnum = Fin real | PInf | NInf | NaN

text \<open>World constants.\<close>

definition WORLD_W :: real where "WORLD_W = 900"
definition WORLD_H :: real where "WORLD_H = 1600"
definition TICK_RATE :: real where "TICK_RATE = 60"
definition SEND_RATE :: real where "SEND_RATE = 30"
definition MAX_DT :: real where "MAX_DT = 5 / 100"
definition PADDING :: real where "PADDING = 70"
definition PADDLE_WIDTH_FRAC :: real where "PADDLE_WIDTH_FRAC = 28 / 100"
definition PADDLE_HEIGHT_FRAC :: real where "PADDLE_HEIGHT_FRAC = 2 / 100"
definition BALL_RADIUS_FRAC :: real where "BALL_RADIUS_FRAC = 18 / 1000"
definition INIT_BALL_SPEED :: real where "INIT_BALL_SPEED = 780"
definition MAX_BALL_SPEED :: real where "MAX_BALL_SPEED = 1200"
definition SPEED_UP :: real where "SPEED_UP = 103 / 100"
definition MAX_BOUNCE_ANGLE :: real where "MAX_BOUNCE_ANGLE = 105 / 100"
definition HEARTS_START :: int where "HEARTS_START = 3"

text \<open>
  A socket object \<open>ws\<close> with the fields the server attaches to it. Sockets live in a store
  indexed by address (a natural number); \<open>readyOpen\<close> stands for
  \<open>ws.readyState === WebSocket.OPEN\<close>.
\<close>

record session =
  id_s :: nat
  name_s :: string
  roomId :: "nat option"
  side_s :: "side option"
  isAlive :: bool
  readyOpen :: bool

record player =
  ws :: "nat option"
  id_p :: nat
  name_p :: string
  hearts :: int

record world_params =
  W :: real
  H :: real
  pw :: real
  ph :: real
  rad :: real
  topY :: real
  bottomY :: real

record paddles_rec =
  topX :: jsnum
  bottomX :: jsnum

record ball_rec =
  x_b :: real
  y_b :: real
  vx :: real
  vy :: real
  speed :: real

record room =
  id_r :: nat
  top_pl :: player
  bottom_pl :: player
  params :: world_params
  paddles :: paddles_rec
  ball :: ball_rec
  phase :: phase
  serveToward :: side
  nextPhaseAt :: int
  lastTickAt :: int
  lastBroadcastAt :: int
  vote_top :: bool
  vote_bottom :: bool
  loop_tick :: bool
  loop_send :: bool

text \<open>Outbound frames, one constructor per message type of the protocol.\<close>

datatype msg =
    Hello nat
  | Finding nat
  | QueueCancelled
  | MatchFound nat "(string \<times> side) list" side int
  | StateMsg int phase "real \<times> real" "jsnum \<times> jsnum" "int \<times> int" "real \<times> real \<times> real \<times> real \<times> real" side
  | Score "int \<times> int" side
  | GameOver "side option" string "int \<times> int"
  | RematchOffered
  | RematchStart int
  | ErrorMsg string

type_synonym frame = "nat \<times> msg"

type_synonym store = "nat \<Rightarrow> session"

section \<open>Helpers\<close>

text \<open>\<open>safeSend(ws, msg)\<close>: the frame is produced only for an existing, open socket.\<close>

definition safeSend :: "store \<Rightarrow> nat option \<Rightarrow> msg \<Rightarrow> frame list" where
  "safeSend ss w m =
     (case w of None \<Rightarrow> []
      | Some a \<Rightarrow> if readyOpen (ss a) then [(a, m)] else [])"

text \<open>\<open>clamp(v, min, max) = Math.max(min, Math.min(max, v))\<close> on reals.\<close>

definition clamp :: "real \<Rightarrow> real \<Rightarrow> real \<Rightarrow> real" where
  "clamp v lo hi = max lo (min hi v)"

text \<open>
  \<open>Math.min\<close> and \<open>Math.max\<close> on JavaScript numbers: NaN if either argument is NaN,
  otherwise the order of the extended real line.
\<close>

fun js_le :: "jsnum \<Rightarrow> jsnum \<Rightarrow> bool" where
  "js_le NaN _ = False"
| "js_le _ NaN = False"
| "js_le NInf _ = True"
| "js_le _ PInf = True"
| "js_le (Fin a) (Fin b) = (a \<le> b)"
| "js_le _ _ = False"

definition js_min :: "jsnum \<Rightarrow> jsnum \<Rightarrow> jsnum" where
  "js_min a b = (if a = NaN \<or> b = NaN then NaN else if js_le a b then a else b)"

definition js_max :: "jsnum \<Rightarrow> jsnum \<Rightarrow> jsnum" where
  "js_max a b = (if a = NaN \<or> b = NaN then NaN else if js_le a b then b else a)"

text \<open>The same \<open>clamp\<close>, applied to a number that may be non-finite.\<close>

definition clamp_js :: "jsnum \<Rightarrow> jsnum \<Rightarrow> jsnum \<Rightarrow> jsnum" where
  "clamp_js v lo hi = js_max lo (js_min hi v)"

definition opponentSide :: "side \<Rightarrow> side" where
  "opponentSide sd = (if sd = Top then Bottom else Top)"

text \<open>\<open>room.players[side]\<close>, read and written.\<close>

definition player_of :: "room \<Rightarrow> side \<Rightarrow> player" where
  "player_of rm sd = (case sd of Top \<Rightarrow> top_pl rm | Bottom \<Rightarrow> bottom_pl rm)"

definition set_player :: "side \<Rightarrow> player \<Rightarrow> room \<Rightarrow> room" where
  "set_player sd p rm = (case sd of Top \<Rightarrow> rm\<lparr>top_pl := p\<rparr> | Bottom \<Rightarrow> rm\<lparr>bottom_pl := p\<rparr>)"

text \<open>
  \<open>broadcastEvent(room, event)\<close>: for \<open>top\<close> then \<open>bottom\<close>, send to the slot's socket if
  it is present and open.
\<close>

definition broadcastEvent :: "store \<Rightarrow> room \<Rightarrow> msg \<Rightarrow> frame list" where
  "broadcastEvent ss rm ev =
     concat (map (\<lambda>sd. safeSend ss (ws (player_of rm sd)) ev) [Top, Bottom])"

definition hearts_of :: "room \<Rightarrow> int \<times> int" where
  "hearts_of rm = (hearts (top_pl rm), hearts (bottom_pl rm))"

section \<open>Room runtime\<close>

text \<open>
  \<open>serveBall(room)\<close>. The argument \<open>rnd\<close> is the value returned by \<open>Math.random()\<close>,
  a number in \<open>[0, 1)\<close>.
\<close>

definition serveBall :: "real \<Rightarrow> room \<Rightarrow> room" where
  "serveBall rnd rm =
     (let angle = rnd * (8 / 10) - 4 / 10;
          dir = (if serveToward rm = Top then - 1 else 1);
          s = INIT_BALL_SPEED
      in rm\<lparr>ball := (ball rm)\<lparr>x_b := W (params rm) / 2, y_b := H (params rm) / 2,
                               speed := s, vx := s * sin angle, vy := dir * cos angle\<rparr>\<rparr>)"

text \<open>\<open>paddleBounce(room, side, paddleCenterX)\<close>.\<close>

definition paddleBounce :: "side \<Rightarrow> real \<Rightarrow> room \<Rightarrow> room" where
  "paddleBounce sd paddleCenterX rm =
     (let b = ball rm;
          rel = clamp ((x_b b - paddleCenterX) / (pw (params rm) / 2)) (- 1) 1;
          newSpeed = clamp (speed b * SPEED_UP) 100 MAX_BALL_SPEED;
          angle = rel * MAX_BOUNCE_ANGLE
      in rm\<lparr>ball := b\<lparr>vx := newSpeed * sin angle,
                       vy := (if sd = Top then \<bar>newSpeed * cos angle\<bar>
                              else - \<bar>newSpeed * cos angle\<bar>),
                       speed := newSpeed\<rparr>\<rparr>)"

text \<open>\<open>endGame(room, winnerSide, reason)\<close>; returns the room and the frames sent.\<close>

definition endGame :: "store \<Rightarrow> side option \<Rightarrow> string \<Rightarrow> room \<Rightarrow> room \<times> frame list" where
  "endGame ss winnerSide reason rm =
     (let rm1 = rm\<lparr>phase := Gameover, ball := (ball rm)\<lparr>vx := 0, vy := 0\<rparr>\<rparr>
      in (rm1, broadcastEvent ss rm1 (GameOver winnerSide reason (hearts_of rm1))))"

text \<open>
  \<open>onScore(room, loserSide)\<close>; \<open>now\<close> is the reading of \<open>nowMs()\<close>.
\<close>

definition onScore :: "store \<Rightarrow> int \<Rightarrow> side \<Rightarrow> room \<Rightarrow> room \<times> frame list" where
  "onScore ss now loserSide rm =
     (if phase rm \<noteq> Playing then (rm, [])
      else
        let rm1 = rm\<lparr>phase := Between\<rparr>;
            loser = player_of rm1 loserSide;
            winnerSide = opponentSide loserSide;
            rm2 = set_player loserSide (loser\<lparr>hearts := max 0 (hearts loser - 1)\<rparr>) rm1;
            sent = broadcastEvent ss rm2 (Score (hearts_of rm2) loserSide);
            topHearts = hearts (top_pl rm2);
            bottomHearts = hearts (bottom_pl rm2)
        in if topHearts \<le> 0 \<and> bottomHearts \<le> 0 then
             (let (rm3, sent2) = endGame ss None ''tie'' rm2 in (rm3, sent @ sent2))
           else if hearts (player_of rm2 loserSide) \<le> 0 then
             (let (rm3, sent2) = endGame ss (Some winnerSide) ''hearts'' rm2
              in (rm3, sent @ sent2))
           else
             (rm2\<lparr>serveToward := loserSide, nextPhaseAt := now + 1500,
                  ball := (ball rm2)\<lparr>vx := 0, vy := 0, x_b := W (params rm2) / 2,
                                      y_b := H (params rm2) / 2, speed := INIT_BALL_SPEED\<rparr>\<rparr>,
              sent))"

text \<open>
  The horizontal overlap test of \<open>integrate\<close> against a paddle whose normalised centre is
  \<open>px\<close>: \<open>c = px * W\<close>, \<open>minX = c - pw / 2\<close>, \<open>maxX = c + pw / 2\<close>, and the hit
  condition \<open>b.x + r >= minX && b.x - r <= maxX\<close>. For an infinite or NaN centre one of the
  two comparisons is false, so only a finite centre can be hit; the result is the centre
  \<open>c\<close> that is handed to \<open>paddleBounce\<close>.
\<close>

definition paddle_hit :: "jsnum \<Rightarrow> world_params \<Rightarrow> ball_rec \<Rightarrow> real option" where
  "paddle_hit px pr b =
     (case px of
        Fin a \<Rightarrow>
          (let c = a * W pr; minX = c - pw pr / 2; maxX = c + pw pr / 2
           in if x_b b + rad pr \<ge> minX \<and> x_b b - rad pr \<le> maxX then Some c else None)
      | _ \<Rightarrow> None)"

text \<open>\<open>integrate(room, dt)\<close>; returns the room and the frames sent.\<close>

definition integrate :: "store \<Rightarrow> int \<Rightarrow> real \<Rightarrow> room \<Rightarrow> room \<times> frame list" where
  "integrate ss now dt rm =
     (let pr = params rm;
          b0 = ball rm;
          b1 = b0\<lparr>x_b := x_b b0 + vx b0 * dt, y_b := y_b b0 + vy b0 * dt\<rparr>;
          b = (if x_b b1 - rad pr \<le> 0 then b1\<lparr>x_b := rad pr, vx := \<bar>vx b1\<bar>\<rparr>
               else if x_b b1 + rad pr \<ge> W pr then b1\<lparr>x_b := W pr - rad pr, vx := - \<bar>vx b1\<bar>\<rparr>
               else b1);
          rm1 = rm\<lparr>ball := b\<rparr>;
          hitTop = (if vy b < 0 \<and> y_b b - rad pr \<le> topY pr + ph pr / 2
                        \<and> y_b b + rad pr \<ge> topY pr - ph pr / 2
                    then paddle_hit (topX (paddles rm1)) pr b else None);
          hitBottom = (if vy b > 0 \<and> y_b b + rad pr \<ge> bottomY pr - ph pr / 2
                           \<and> y_b b - rad pr \<le> bottomY pr + ph pr / 2
                       then paddle_hit (bottomX (paddles rm1)) pr b else None)
      in case hitTop of
           Some c \<Rightarrow> (paddleBounce Top c rm1, [])
         | None \<Rightarrow>
             (case hitBottom of
                Some c \<Rightarrow> (paddleBounce Bottom c rm1, [])
              | None \<Rightarrow>
                  if y_b b + rad pr < 0 then onScore ss now Top rm1
                  else if y_b b - rad pr > H pr then onScore ss now Bottom rm1
                  else (rm1, [])))"

text \<open>
  \<open>tick(room)\<close>, the body of the tick timer. \<open>t\<close> is the reading of \<open>nowMs()\<close> and
  \<open>rnd\<close> the value \<open>Math.random()\<close> returns if the ball is served.
\<close>

definition tick :: "store \<Rightarrow> int \<Rightarrow> real \<Rightarrow> room \<Rightarrow> room \<times> frame list" where
  "tick ss t rnd rm =
     (let dt = real_of_int (t - lastTickAt rm) / 1000;
          rm1 = rm\<lparr>lastTickAt := t\<rparr>
      in if dt \<le> 0 then (rm1, [])
         else
           let dt1 = (if dt > MAX_DT then MAX_DT else dt)
           in if phase rm1 \<noteq> Playing then
                (if t \<ge> nextPhaseAt rm1 \<and> phase rm1 \<noteq> Gameover
                    \<and> (phase rm1 = Countdown \<or> phase rm1 = Between)
                 then ((serveBall rnd rm1)\<lparr>phase := Playing\<rparr>, [])
                 else (rm1, []))
              else integrate ss t dt1 rm1)"

text \<open>\<open>broadcastState(room)\<close>, the body of the broadcast timer.\<close>

definition broadcastState :: "store \<Rightarrow> int \<Rightarrow> room \<Rightarrow> frame list" where
  "broadcastState ss t rm =
     concat (map (\<lambda>sd.
        case ws (player_of rm sd) of
          None \<Rightarrow> []
        | Some a \<Rightarrow>
            if \<not> readyOpen (ss a) then []
            else safeSend ss (Some a)
                   (StateMsg t (phase rm) (x_b (ball rm), y_b (ball rm))
                      (topX (paddles rm), bottomX (paddles rm)) (hearts_of rm)
                      (W (params rm), H (params rm), rad (params rm), pw (params rm),
                       ph (params rm)) sd))
        [Top, Bottom])"

section \<open>Server state, rooms registry and matchmaking\<close>

text \<open>
  The process-wide state: the store of socket objects, the \<open>rooms\<close> registry, the
  \<open>waitingQueue\<close>, the \<open>clients\<close> registry, and the frames sent so far, oldest first.
  A reference to a room object is modelled by the key under which the registry holds it.
\<close>

record server =
  sessions :: store
  rooms :: "nat \<rightharpoonup> room"
  waitingQueue :: "nat list"
  clients :: "nat \<rightharpoonup> nat"
  outbox :: "frame list"

text \<open>The only exception the handlers can raise: a property access on \<open>null\<close>.\<close>

datatype error = TypeError

definition send_all :: "frame list \<Rightarrow> server \<Rightarrow> server" where
  "send_all fs s = s\<lparr>outbox := outbox s @ fs\<rparr>"

definition put_room :: "nat \<Rightarrow> room \<Rightarrow> server \<Rightarrow> server" where
  "put_room rid rm s = s\<lparr>rooms := (rooms s)(rid \<mapsto> rm)\<rparr>"

definition upd_session :: "nat \<Rightarrow> (session \<Rightarrow> session) \<Rightarrow> server \<Rightarrow> server" where
  "upd_session a f s = s\<lparr>sessions := (sessions s)(a := f (sessions s a))\<rparr>"

definition startLoops :: "room \<Rightarrow> room" where
  "startLoops rm = rm\<lparr>loop_tick := True, loop_send := True\<rparr>"

definition stopLoops :: "room \<Rightarrow> room" where
  "stopLoops rm = rm\<lparr>loop_tick := False, loop_send := False\<rparr>"

text \<open>
  \<open>destroyRoom(roomId)\<close>: the loops are stopped, then the registry entry is deleted; with
  the entry the room object, and its cleared timers, leave the model.
\<close>

definition destroyRoom :: "nat \<Rightarrow> server \<Rightarrow> server" where
  "destroyRoom rid s =
     (case rooms s rid of
        None \<Rightarrow> s
      | Some rm \<Rightarrow> (put_room rid (stopLoops rm) s)\<lparr>rooms := (rooms s)(rid := None)\<rparr>)"

text \<open>
  \<open>makeRoom(a, b, swapSides)\<close> for two socket objects. \<open>newid\<close> is the identifier
  \<open>uuidv4()\<close> returns, \<open>rndSide\<close> and \<open>rndServe\<close> are the two values of
  \<open>Math.random()\<close> (the first is drawn only when \<open>swapSides\<close> is false), \<open>now\<close> the
  reading of \<open>nowMs()\<close>. The result is the new room (registered at \<open>newid\<close>) and the
  new state.
\<close>

definition makeRoom :: "nat \<Rightarrow> real \<Rightarrow> real \<Rightarrow> int \<Rightarrow> nat \<Rightarrow> nat \<Rightarrow> bool \<Rightarrow> server \<Rightarrow> room \<times> server" where
  "makeRoom newid rndSide rndServe now a b swapSides s =
     (let w = WORLD_W; h = WORLD_H;
          pw' = PADDLE_WIDTH_FRAC * w;
          ph' = PADDLE_HEIGHT_FRAC * h;
          r' = BALL_RADIUS_FRAC * w;
          topY' = PADDING + ph' * (5 / 10);
          bottomY' = h - (PADDING + ph' * (5 / 10));
          bottom0 = a; top0 = b;
          (bottom, top) = (if swapSides then (b, a)
                           else if rndSide < 5 / 10 then (b, a) else (bottom0, top0));
          s1 = upd_session top (\<lambda>c. c\<lparr>side_s := Some Top\<rparr>) s;
          s2 = upd_session bottom (\<lambda>c. c\<lparr>side_s := Some Bottom\<rparr>) s1;
          s3 = upd_session top (\<lambda>c. c\<lparr>roomId := Some newid\<rparr>) s2;
          s4 = upd_session bottom (\<lambda>c. c\<lparr>roomId := Some newid\<rparr>) s3;
          ss = sessions s4;
          rm = \<lparr>id_r = newid,
                top_pl = \<lparr>ws = Some top, id_p = id_s (ss top), name_p = name_s (ss top),
                          hearts = HEARTS_START\<rparr>,
                bottom_pl = \<lparr>ws = Some bottom, id_p = id_s (ss bottom),
                             name_p = name_s (ss bottom), hearts = HEARTS_START\<rparr>,
                params = \<lparr>W = w, H = h, pw = pw', ph = ph', rad = r', topY = topY',
                          bottomY = bottomY'\<rparr>,
                paddles = \<lparr>topX = Fin (5 / 10), bottomX = Fin (5 / 10)\<rparr>,
                ball = \<lparr>x_b = w / 2, y_b = h / 2, vx = 0, vy = 0, speed = INIT_BALL_SPEED\<rparr>,
                phase = Countdown,
                serveToward = (if rndServe < 5 / 10 then Top else Bottom),
                nextPhaseAt = now + 3000,
                lastTickAt = now,
                lastBroadcastAt = 0,
                vote_top = False, vote_bottom = False,
                loop_tick = False, loop_send = False\<rparr>;
          s5 = put_room newid rm s4;
          playersPayload = [(name_p (top_pl rm), Top), (name_p (bottom_pl rm), Bottom)];
          s6 = send_all (safeSend ss (Some top) (MatchFound newid playersPayload Top 3)) s5;
          s7 = send_all (safeSend ss (Some bottom) (MatchFound newid playersPayload Bottom 3)) s6
      in (startLoops rm, put_room newid (startLoops rm) s7))"

text \<open>
  \<open>startRematch(oldRoom)\<close>. \<open>makeRoom\<close> writes \<open>top.side\<close> on its arguments, so a
  \<open>null\<close> socket in either slot of the old room raises a TypeError (after the votes have
  been reset). The identifier \<open>newid\<close> of the new room is drawn by \<open>uuidv4()\<close> and is
  taken to differ from the identifiers in use.
\<close>

definition startRematch :: "nat \<Rightarrow> real \<Rightarrow> int \<Rightarrow> nat \<Rightarrow> server \<Rightarrow> error + server" where
  "startRematch newid rndServe now oldRef s =
     (case rooms s oldRef of
        None \<Rightarrow> Inr s
      | Some oldRoom \<Rightarrow>
          (let a = ws (top_pl oldRoom);
               b = ws (bottom_pl oldRoom);
               s1 = put_room oldRef (oldRoom\<lparr>vote_top := False, vote_bottom := False\<rparr>) s
           in case (a, b) of
                (Some a', Some b') \<Rightarrow>
                  (let (newRoom0, s2) = makeRoom newid 0 rndServe now a' b' True s1;
                       newRoom = newRoom0\<lparr>
                         top_pl := (top_pl newRoom0)\<lparr>hearts := HEARTS_START\<rparr>,
                         bottom_pl := (bottom_pl newRoom0)\<lparr>hearts := HEARTS_START\<rparr>,
                         phase := Countdown,
                         nextPhaseAt := now + 3000\<rparr>;
                       s3 = put_room newid newRoom s2;
                       s4 = send_all (broadcastEvent (sessions s3) newRoom (RematchStart 3)) s3
                   in Inr (destroyRoom (id_r oldRoom) s4))
              | _ \<Rightarrow> Inl TypeError))"

text \<open>\<open>requestRematch(room, side)\<close>; the handler has already checked that the room exists.\<close>

definition requestRematch :: "nat \<Rightarrow> real \<Rightarrow> int \<Rightarrow> nat \<Rightarrow> side \<Rightarrow> server \<Rightarrow> error + server" where
  "requestRematch newid rndServe now ref sd s =
     (case rooms s ref of
        None \<Rightarrow> Inr s
      | Some rm \<Rightarrow>
          if phase rm \<noteq> Gameover then Inr s
          else
            let rm1 = (case sd of Top \<Rightarrow> rm\<lparr>vote_top := True\<rparr>
                                | Bottom \<Rightarrow> rm\<lparr>vote_bottom := True\<rparr>);
                s1 = put_room ref rm1 s;
                other = opponentSide sd;
                opp = player_of rm1 other;
                s2 = send_all (safeSend (sessions s1) (ws opp) RematchOffered) s1
            in if vote_top rm1 \<and> vote_bottom rm1 then startRematch newid rndServe now ref s2
               else Inr s2)"

text \<open>
  \<open>leaveRoom(ws, reason)\<close> for the socket at address \<open>a\<close>. A socket with a room but no
  side would make \<open>room.players[side]\<close> undefined and the write to its \<open>ws\<close> field raise.
\<close>

definition leaveRoom :: "nat \<Rightarrow> server \<Rightarrow> error + server" where
  "leaveRoom a s =
     (case roomId (sessions s a) of
        None \<Rightarrow> Inr s
      | Some rid \<Rightarrow>
          (case rooms s rid of
             None \<Rightarrow> Inr (upd_session a (\<lambda>c. c\<lparr>roomId := None\<rparr>) s)
           | Some rm \<Rightarrow>
               (case side_s (sessions s a) of
                  None \<Rightarrow> Inl TypeError
                | Some sd \<Rightarrow>
                    (let otherSide = opponentSide sd;
                         opp = player_of rm otherSide;
                         s1 = (if phase rm \<noteq> Gameover
                                  \<and> (case ws opp of None \<Rightarrow> False
                                      | Some q \<Rightarrow> readyOpen (sessions s q))
                               then send_all (broadcastEvent (sessions s) rm
                                      (GameOver (Some otherSide) ''disconnect'' (hearts_of rm))) s
                               else s);
                         rm1 = set_player sd ((player_of rm sd)\<lparr>ws := None\<rparr>) rm;
                         s2 = put_room rid rm1 s1;
                         s3 = (if ws (top_pl rm1) = None \<and> ws (bottom_pl rm1) = None
                               then destroyRoom (id_r rm1) s2 else s2)
                     in Inr (upd_session a (\<lambda>c. c\<lparr>roomId := None, side_s := None\<rparr>) s3)))))"

text \<open>
  \<open>tryMatch()\<close>. The first loop removes every queued socket that is not open or already
  has a room; the second pairs the queue from its head. \<open>draws k\<close> gives the identifier
  and the two random numbers of the \<open>k\<close>-th room made by this call.
\<close>

type_synonym draws = "nat \<Rightarrow> nat \<times> real \<times> real"

fun pair_loop :: "draws \<Rightarrow> nat \<Rightarrow> int \<Rightarrow> nat list \<Rightarrow> server \<Rightarrow> server" where
  "pair_loop d k now (a # b # rest) s =
     (let s1 = s\<lparr>waitingQueue := rest\<rparr>
      in if \<not> readyOpen (sessions s1 a) \<or> \<not> readyOpen (sessions s1 b)
         then pair_loop d k now rest s1
         else (case d k of (newid, rndSide, rndServe) \<Rightarrow>
                 pair_loop d (Suc k) now rest
                   (snd (makeRoom newid rndSide rndServe now a b False s1))))"
| "pair_loop d k now q s = s"

definition tryMatch :: "draws \<Rightarrow> int \<Rightarrow> server \<Rightarrow> server" where
  "tryMatch d now s =
     (let q = filter (\<lambda>c. readyOpen (sessions s c) \<and> roomId (sessions s c) = None)
                (waitingQueue s)
      in pair_loop d 0 now q (s\<lparr>waitingQueue := q\<rparr>))"

section \<open>Inbound frames\<close>

text \<open>The values \<open>JSON.parse\<close> can return; an object is the list of its properties.\<close>

datatype json =
    JNull
  | JBool bool
  | JNum jsnum
  | JStr string
  | JArr "json list"
  | JObj "(string \<times> json) list"

text \<open>\<open>msg.key\<close> on a parsed value that passed the object test; \<open>None\<close> is \<open>undefined\<close>.\<close>

definition get_prop :: "json \<Rightarrow> string \<Rightarrow> json option" where
  "get_prop m k = (case m of JObj kvs \<Rightarrow> map_of kvs k | _ \<Rightarrow> None)"

text \<open>\<open>!msg || typeof msg !== 'object'\<close>: true of \<open>null\<close> and of every primitive value.\<close>

definition not_object :: "json \<Rightarrow> bool" where
  "not_object m = (case m of JObj _ \<Rightarrow> False | JArr _ \<Rightarrow> False | _ \<Rightarrow> True)"

text \<open>
  \<open>Number(v)\<close>. The conversion of strings, arrays and objects goes through the built-in
  string-to-number conversion, which is the parameter \<open>conv\<close>.
\<close>

definition Number_js :: "(json \<Rightarrow> jsnum) \<Rightarrow> json option \<Rightarrow> jsnum" where
  "Number_js conv v =
     (case v of
        None \<Rightarrow> NaN
      | Some (JNum n) \<Rightarrow> n
      | Some JNull \<Rightarrow> Fin 0
      | Some (JBool b) \<Rightarrow> Fin (if b then 1 else 0)
      | Some u \<Rightarrow> conv u)"

text \<open>
  \<open>sanitizeName(raw)\<close>. Characters are the code units below 256; of these
  \<open>String.prototype.trim\<close> removes the codes 9 to 13, 32 and 160.
\<close>

definition is_space :: "char \<Rightarrow> bool" where
  "is_space c = (let n = (of_char c :: nat) in (9 \<le> n \<and> n \<le> 13) \<or> n = 32 \<or> n = 160)"

definition is_control :: "char \<Rightarrow> bool" where
  "is_control c = (let n = (of_char c :: nat) in n \<le> 31 \<or> n = 127)"

definition trim :: "string \<Rightarrow> string" where
  "trim str = rev (dropWhile is_space (rev (dropWhile is_space str)))"

definition sanitizeName :: "json option \<Rightarrow> string" where
  "sanitizeName raw =
     (case raw of
        Some (JStr str) \<Rightarrow>
          if str = [] then ''Player''
          else
            let name = filter (\<lambda>c. \<not> is_control c) (take 16 (trim str))
            in if name = [] then ''Player'' else name
      | _ \<Rightarrow> ''Player'')"

text \<open>
  The \<open>message\<close> handler of the socket at address \<open>a\<close>. \<open>data\<close> is the result of
  \<open>JSON.parse(data.toString())\<close>, \<open>None\<close> when it throws.
\<close>

definition on_message :: "(json \<Rightarrow> jsnum) \<Rightarrow> draws \<Rightarrow> int \<Rightarrow> nat \<Rightarrow> json option \<Rightarrow> server \<Rightarrow> error + server" where
  "on_message conv d now a data s =
     (case data of
        None \<Rightarrow> Inr s
      | Some m \<Rightarrow>
          if not_object m then Inr s
          else
            let c = sessions s a; ty = get_prop m ''type'' in
            if ty = Some (JStr ''joinQueue'') then
              (let s1 = upd_session a (\<lambda>c. c\<lparr>name_s := sanitizeName (get_prop m ''name'')\<rparr>) s
               in if roomId (sessions s1 a) = None \<and> a \<notin> set (waitingQueue s1) then
                    (let s2 = s1\<lparr>waitingQueue := waitingQueue s1 @ [a]\<rparr>;
                         s3 = send_all (safeSend (sessions s2) (Some a)
                                (Finding (length (waitingQueue s2)))) s2
                     in Inr (tryMatch d now s3))
                  else Inr s1)
            else if ty = Some (JStr ''cancelQueue'') then
              (let s1 = s\<lparr>waitingQueue := remove1 a (waitingQueue s)\<rparr>
               in Inr (send_all (safeSend (sessions s1) (Some a) QueueCancelled) s1))
            else if ty = Some (JStr ''paddle'') then
              (case (roomId c, side_s c) of
                 (Some rid, Some sd) \<Rightarrow>
                   (case rooms s rid of
                      None \<Rightarrow> Inr s
                    | Some rm \<Rightarrow>
                        (let x = clamp_js (Number_js conv (get_prop m ''x'')) (Fin 0) (Fin 1)
                         in if sd = Top
                            then Inr (put_room rid (rm\<lparr>paddles := (paddles rm)\<lparr>topX := x\<rparr>\<rparr>) s)
                            else Inr (put_room rid (rm\<lparr>paddles := (paddles rm)\<lparr>bottomX := x\<rparr>\<rparr>) s)))
               | _ \<Rightarrow> Inr s)
            else if ty = Some (JStr ''rematchRequest'') then
              (case (roomId c, side_s c) of
                 (Some rid, Some sd) \<Rightarrow>
                   (case rooms s rid of
                      None \<Rightarrow> Inr s
                    | Some rm \<Rightarrow>
                        (case d 0 of (newid, rndSide, rndServe) \<Rightarrow>
                           requestRematch newid rndServe now rid sd s))
               | _ \<Rightarrow> Inr s)
            else if ty = Some (JStr ''leaveRoom'') then leaveRoom a s
            else Inr (send_all (safeSend (sessions s) (Some a) (ErrorMsg ''Unknown message type'')) s))"

text \<open>The \<open>close\<close> and \<open>error\<close> handlers of the socket at address \<open>a\<close>; they have the same body.\<close>

definition on_close :: "nat \<Rightarrow> server \<Rightarrow> error + server" where
  "on_close a s =
     (let s1 = s\<lparr>waitingQueue := remove1 a (waitingQueue s)\<rparr>
      in case leaveRoom a s1 of
           Inl e \<Rightarrow> Inl e
         | Inr s2 \<Rightarrow> Inr (s2\<lparr>clients := (clients s2)(id_s (sessions s2 a) := None)\<rparr>))"

definition on_error :: "nat \<Rightarrow> server \<Rightarrow> error + server" where
  "on_error a s =
     (let s1 = s\<lparr>waitingQueue := remove1 a (waitingQueue s)\<rparr>
      in case leaveRoom a s1 of
           Inl e \<Rightarrow> Inl e
         | Inr s2 \<Rightarrow> Inr (s2\<lparr>clients := (clients s2)(id_s (sessions s2 a) := None)\<rparr>))"

text \<open>The tick and broadcast timers of the room registered at \<open>ref\<close>.\<close>

definition tick_timer :: "int \<Rightarrow> real \<Rightarrow> nat \<Rightarrow> server \<Rightarrow> server" where
  "tick_timer t rnd ref s =
     (case rooms s ref of
        None \<Rightarrow> s
      | Some rm \<Rightarrow>
          if \<not> loop_tick rm then s
          else (case tick (sessions s) t rnd rm of
                  (rm1, sent) \<Rightarrow> send_all sent (put_room ref rm1 s)))"

definition send_timer :: "int \<Rightarrow> nat \<Rightarrow> server \<Rightarrow> server" where
  "send_timer t ref s =
     (case rooms s ref of
        None \<Rightarrow> s
      | Some rm \<Rightarrow>
          if \<not> loop_send rm then s
          else send_all (broadcastState (sessions s) t rm) s)"

section \<open>Traces of a room and example states\<close>

text \<open>
  \<open>after_misses n rm\<close>: the room \<open>rm\<close> is what a room that started with full hearts in
  \<open>countdown\<close> has become after \<open>n\<close> calls of \<open>onScore\<close> made while \<open>playing\<close>, interleaved
  in any order with the other mutations the server performs on a room: the serve of
  \<open>tick\<close>, the ball updates of \<open>integrate\<close> and \<open>paddleBounce\<close>, the clock update of
  \<open>tick\<close>, a \<open>paddle\<close> input, a leaving player, and the rematch votes.
\<close>

inductive after_misses :: "nat \<Rightarrow> room \<Rightarrow> bool" where
  start: "hearts (top_pl rm) = HEARTS_START \<Longrightarrow> hearts (bottom_pl rm) = HEARTS_START \<Longrightarrow>
          phase rm = Countdown \<Longrightarrow> after_misses 0 rm"
| miss: "after_misses n rm \<Longrightarrow> phase rm = Playing \<Longrightarrow>
         after_misses (Suc n) (fst (onScore ss now loserSide rm))"
| serve: "after_misses n rm \<Longrightarrow> phase rm = Countdown \<or> phase rm = Between \<Longrightarrow>
          after_misses n ((serveBall rnd rm)\<lparr>phase := Playing\<rparr>)"
| move: "after_misses n rm \<Longrightarrow> after_misses n (rm\<lparr>ball := b\<rparr>)"
| clock: "after_misses n rm \<Longrightarrow> after_misses n (rm\<lparr>lastTickAt := t\<rparr>)"
| input: "after_misses n rm \<Longrightarrow> after_misses n (rm\<lparr>paddles := p\<rparr>)"
| leave: "after_misses n rm \<Longrightarrow>
          after_misses n (set_player sd ((player_of rm sd)\<lparr>ws := None\<rparr>) rm)"
| vote: "after_misses n rm \<Longrightarrow> after_misses n (rm\<lparr>vote_top := v, vote_bottom := v'\<rparr>)"

text \<open>Every registered room is on a trace that started with full hearts.\<close>

definition rooms_traced :: "server \<Rightarrow> bool" where
  "rooms_traced s = (\<forall>rid rm. rooms s rid = Some rm \<longrightarrow> (\<exists>n. after_misses n rm))"

text \<open>
  Example states: two connected sockets at addresses 1 and 2, matched at time 1000 into
  room 7 (socket 1 on top), and the room after the serve at time 4000.
\<close>

definition ex_sessions :: store where
  "ex_sessions = (\<lambda>a. \<lparr>id_s = a, name_s = ''Player'', roomId = None, side_s = None,
                         isAlive = True, readyOpen = True\<rparr>)"

definition ex_server0 :: server where
  "ex_server0 = \<lparr>sessions = ex_sessions, rooms = Map.empty, waitingQueue = [],
                 clients = Map.empty, outbox = []\<rparr>"

definition ex_room :: room where
  "ex_room = fst (makeRoom 7 0 (9 / 10) 1000 1 2 False ex_server0)"

definition ex_server1 :: server where
  "ex_server1 = snd (makeRoom 7 0 (9 / 10) 1000 1 2 False ex_server0)"

definition ex_store :: store where
  "ex_store = sessions ex_server1"

definition ex_playing :: room where
  "ex_playing = fst (tick ex_store 4000 (1 / 2) ex_room)"

text \<open>
  A rally of lost points, for the examples: each miss is preceded by the serve that puts
  the room back into \<open>playing\<close>.
\<close>

fun ex_misses :: "side list \<Rightarrow> room \<Rightarrow> room" where
  "ex_misses [] rm = rm"
| "ex_misses (l # ls) rm =
     ex_misses ls (fst (onScore ex_store 5000 l ((serveBall (1 / 2) rm)\<lparr>phase := Playing\<rparr>)))"

definition ex_four :: room where
  "ex_four = ex_misses [Top, Bottom, Top, Bottom] ex_room"

definition ex_match_point :: room where
  "ex_match_point = (serveBall (1 / 2) ex_four)\<lparr>phase := Playing\<rparr>"

definition ex_five :: room where
  "ex_five = ex_misses [Top, Bottom, Top, Bottom, Top] ex_room"

text \<open>The paddle invariant: a normalised position in \<open>[0, 1]\<close>.\<close>

definition in_unit :: "jsnum \<Rightarrow> bool" where
  "in_unit v = (js_le (Fin 0) v \<and> js_le v (Fin 1))"

text \<open>A \<open>paddle\<close> frame whose \<open>x\<close> overflowed to \<open>Infinity\<close> (such as \<open>1e999\<close>).\<close>

definition ex_paddle_frame :: json where
  "ex_paddle_frame = JObj [(''type'', JStr ''paddle''), (''x'', JNum PInf)]"


text \<open>
  More example states: the server after the tick that serves in room 7, and the server
  with room 7 in \<open>gameover\<close> after the top player lost every heart; the frames two clients
  send to leave and to ask for a rematch; the environment of a handler (no string converts
  to a number, the \<open>k\<close>-th new room gets the identifier \<open>8 + k\<close>).
\<close>

definition ex_server2 :: server where
  "ex_server2 = tick_timer 4000 (1 / 2) 7 ex_server1"

definition ex_leave_frame :: json where
  "ex_leave_frame = JObj [(''type'', JStr ''leaveRoom'')]"

definition ex_over :: server where
  "ex_over = put_room 7 (ex_room\<lparr>phase := Gameover, lastTickAt := 9000,
                                   top_pl := (top_pl ex_room)\<lparr>hearts := 0\<rparr>\<rparr>) ex_server1"

definition ex_rematch_frame :: json where
  "ex_rematch_frame = JObj [(''type'', JStr ''rematchRequest'')]"

definition ex_conv :: "json \<Rightarrow> jsnum" where
  "ex_conv u = NaN"

definition ex_draws :: draws where
  "ex_draws k = (8 + k, 0, 1 / 4)"

text \<open>The message types the handler dispatches on, and a frame of another type.\<close>

definition known_types :: "string list" where
  "known_types = [''joinQueue'', ''cancelQueue'', ''paddle'', ''rematchRequest'', ''leaveRoom'']"

definition ex_unknown_frame :: json where
  "ex_unknown_frame = JObj [(''type'', JStr ''ping'')]"

section \<open>The example states, evaluated\<close>

lemmas consts_defs = WORLD_W_def WORLD_H_def PADDLE_WIDTH_FRAC_def PADDLE_HEIGHT_FRAC_def
  BALL_RADIUS_FRAC_def PADDING_def HEARTS_START_def INIT_BALL_SPEED_def

lemma ex_room_eq:
  "ex_room = \<lparr>id_r = 7,
       top_pl = \<lparr>ws = Some 1, id_p = 1, name_p = ''Player'', hearts = 3\<rparr>,
       bottom_pl = \<lparr>ws = Some 2, id_p = 2, name_p = ''Player'', hearts = 3\<rparr>,
       params = \<lparr>W = 900, H = 1600, pw = 252, ph = 32, rad = 81 / 5, topY = 86,
                 bottomY = 1514\<rparr>,
       paddles = \<lparr>topX = Fin (1 / 2), bottomX = Fin (1 / 2)\<rparr>,
       ball = \<lparr>x_b = 450, y_b = 800, vx = 0, vy = 0, speed = 780\<rparr>,
       phase = Countdown, serveToward = Bottom, nextPhaseAt = 4000, lastTickAt = 1000,
       lastBroadcastAt = 0, vote_top = False, vote_bottom = False,
       loop_tick = True, loop_send = True\<rparr>"
  by (simp add: ex_room_def makeRoom_def ex_server0_def ex_sessions_def upd_session_def
      put_room_def send_all_def safeSend_def startLoops_def Let_def consts_defs)

lemma ex_store_open: "readyOpen (ex_store a)"
  by (simp add: ex_store_def ex_server1_def makeRoom_def ex_server0_def ex_sessions_def
      upd_session_def put_room_def send_all_def safeSend_def startLoops_def Let_def)

lemma ex_playing_eq:
  "ex_playing = ex_room\<lparr>lastTickAt := 4000, phase := Playing,
     ball := \<lparr>x_b = 450, y_b = 800, vx = 0, vy = 1, speed = 780\<rparr>\<rparr>"
  by (simp add: ex_playing_def tick_def serveBall_def ex_room_eq MAX_DT_def Let_def
      INIT_BALL_SPEED_def)

lemmas makeRoom_defs = makeRoom_def upd_session_def put_room_def send_all_def safeSend_def
  startLoops_def Let_def

lemma ex_server1_sessions:
  "sessions ex_server1 1 = \<lparr>id_s = 1, name_s = ''Player'', roomId = Some 7, side_s = Some Top,
     isAlive = True, readyOpen = True\<rparr>"
  "sessions ex_server1 2 = \<lparr>id_s = 2, name_s = ''Player'', roomId = Some 7,
     side_s = Some Bottom, isAlive = True, readyOpen = True\<rparr>"
  by (simp_all add: ex_server1_def ex_server0_def ex_sessions_def makeRoom_defs)

lemma ex_server1_rooms: "rooms ex_server1 = [7 \<mapsto> ex_room]"
  by (simp add: ex_server1_def ex_room_def ex_server0_def makeRoom_defs)

lemma ex_server1_outbox:
  "outbox ex_server1 = [(1, MatchFound 7 [(''Player'', Top), (''Player'', Bottom)] Top 3),
                        (2, MatchFound 7 [(''Player'', Top), (''Player'', Bottom)] Bottom 3)]"
  by (simp add: ex_server1_def ex_server0_def ex_sessions_def makeRoom_defs)

lemma ex_server2_eq: "ex_server2 = put_room 7 ex_playing ex_server1"
  by (simp add: ex_server2_def tick_timer_def ex_server1_rooms ex_room_eq send_all_def
      ex_playing_def [symmetric] ex_store_def [symmetric] split: prod.splits)
   (simp add: ex_playing_def tick_def Let_def MAX_DT_def ex_room_eq)

lemma ex_over_fields:
  "sessions ex_over = sessions ex_server1"
  "outbox ex_over = outbox ex_server1"
  "rooms ex_over = [7 \<mapsto> ex_room\<lparr>phase := Gameover, lastTickAt := 9000,
                                   top_pl := (top_pl ex_room)\<lparr>hearts := 0\<rparr>\<rparr>]"
  by (simp_all add: ex_over_def put_room_def ex_server1_rooms)

section \<open>Scoring\<close>

lemma ex_onScore_eq:
  "onScore ex_store 5000 Top ex_playing =
     (ex_room\<lparr>lastTickAt := 4000, phase := Between, serveToward := Top, nextPhaseAt := 6500,
         top_pl := \<lparr>ws = Some 1, id_p = 1, name_p = ''Player'', hearts = 2\<rparr>\<rparr>,
      [(1, Score (2, 3) Top), (2, Score (2, 3) Top)])"
  by (simp add: onScore_def ex_playing_eq ex_room_eq Let_def player_of_def set_player_def
      broadcastEvent_def safeSend_def ex_store_open hearts_of_def INIT_BALL_SPEED_def)

lemma onScore_unfold:
  assumes "phase rm = Playing"
    and rmB: "rmB = set_player l ((player_of rm l)\<lparr>hearts := max 0 (hearts (player_of rm l) - 1)\<rparr>)
                    (rm\<lparr>phase := Between\<rparr>)"
    and score: "score = broadcastEvent ss rm (Score (hearts_of rmB) l)"
  shows "onScore ss now l rm =
     (if hearts (top_pl rmB) \<le> 0 \<and> hearts (bottom_pl rmB) \<le> 0
      then (fst (endGame ss None ''tie'' rmB), score @ snd (endGame ss None ''tie'' rmB))
      else if hearts (player_of rmB l) \<le> 0
      then (fst (endGame ss (Some (opponentSide l)) ''hearts'' rmB),
            score @ snd (endGame ss (Some (opponentSide l)) ''hearts'' rmB))
      else (rmB\<lparr>serveToward := l, nextPhaseAt := now + 1500,
                 ball := \<lparr>x_b = W (params rm) / 2, y_b = H (params rm) / 2, vx = 0, vy = 0,
                           speed = INIT_BALL_SPEED\<rparr>\<rparr>, score))"
proof -
  have b: "broadcastEvent ss rmB (Score (hearts_of rmB) l) = score"
    unfolding score rmB
    by (cases l) (simp_all add: broadcastEvent_def player_of_def set_player_def)
  have p: "params rmB = params rm" "player_of (rm\<lparr>phase := Between\<rparr>) l = player_of rm l"
    by (cases l; simp add: rmB set_player_def player_of_def)+
  have bl: "(ball rmB)\<lparr>vx := 0, vy := 0, x_b := W (params rm) / 2, y_b := H (params rm) / 2,
        speed := INIT_BALL_SPEED\<rparr>
      = \<lparr>x_b = W (params rm) / 2, y_b = H (params rm) / 2, vx = 0, vy = 0,
          speed = INIT_BALL_SPEED\<rparr>"
    by simp
  show ?thesis
    using assms(1)
    by (simp add: onScore_def Let_def case_prod_beta rmB [symmetric] p b bl)
qed

text \<open>
  Claim C5, amended. A call of \<open>onScore\<close> outside \<open>playing\<close> returns the room unchanged and
  sends nothing. A call during \<open>playing\<close> takes one heart from the loser, not below 0, and
  leaves the other side's hearts alone; it first sends the \<open>score\<close> event, carrying the
  updated hearts and \<open>lastMiss = loserSide\<close>, to the open sockets of the room. When the
  loser still has a heart the game goes on: the phase is \<open>between\<close>, nothing else is sent,
  the next serve goes toward the loser, \<open>nextPhaseAt\<close> is 1500 ms ahead, and the ball rests
  at the centre with speed \<open>INIT_BALL_SPEED\<close>. When the loser has no heart left the game
  ends: the phase is \<open>gameover\<close>, not \<open>between\<close>, the ball has zero velocity, and the
  \<open>gameOver\<close> event follows the \<open>score\<close> event, with the opposite side as winner and reason
  \<open>hearts\<close> (or no winner and reason \<open>tie\<close>, should the other side have no heart either).
\<close>

theorem onScore_effect:
  "(phase rm \<noteq> Playing \<longrightarrow> onScore ss now l rm = (rm, [])) \<and>
   (phase rm = Playing \<longrightarrow>
     (let rm' = fst (onScore ss now l rm); sent = snd (onScore ss now l rm);
          score = broadcastEvent ss rm (Score (hearts_of rm') l)
      in hearts (player_of rm' l) = max 0 (hearts (player_of rm l) - 1)
       \<and> hearts (player_of rm' (opponentSide l)) = hearts (player_of rm (opponentSide l))
       \<and> take (length score) sent = score
       \<and> (0 < hearts (player_of rm' l) \<longrightarrow>
             phase rm' = Between \<and> sent = score \<and> serveToward rm' = l
           \<and> nextPhaseAt rm' = now + 1500
           \<and> ball rm' = \<lparr>x_b = W (params rm) / 2, y_b = H (params rm) / 2, vx = 0, vy = 0,
                           speed = INIT_BALL_SPEED\<rparr>)
       \<and> (hearts (player_of rm' l) \<le> 0 \<longrightarrow>
             phase rm' = Gameover
           \<and> vx (ball rm') = 0 \<and> vy (ball rm') = 0
           \<and> sent = score @ broadcastEvent ss rm
                 (GameOver
                    (if hearts (player_of rm' (opponentSide l)) \<le> 0 then None
                     else Some (opponentSide l))
                    (if hearts (player_of rm' (opponentSide l)) \<le> 0 then ''tie''
                     else ''hearts'')
                    (hearts_of rm')))))"
proof (cases "phase rm = Playing")
  case False
  then show ?thesis by (simp add: onScore_def)
next
  case True
  define rmB where "rmB = set_player l ((player_of rm l)\<lparr>hearts := max 0 (hearts (player_of rm l) - 1)\<rparr>)
                    (rm\<lparr>phase := Between\<rparr>)"
  have u: "onScore ss now l rm =
     (if hearts (top_pl rmB) \<le> 0 \<and> hearts (bottom_pl rmB) \<le> 0
      then (fst (endGame ss None ''tie'' rmB),
            broadcastEvent ss rm (Score (hearts_of rmB) l) @ snd (endGame ss None ''tie'' rmB))
      else if hearts (player_of rmB l) \<le> 0
      then (fst (endGame ss (Some (opponentSide l)) ''hearts'' rmB),
            broadcastEvent ss rm (Score (hearts_of rmB) l)
              @ snd (endGame ss (Some (opponentSide l)) ''hearts'' rmB))
      else (rmB\<lparr>serveToward := l, nextPhaseAt := now + 1500,
                 ball := \<lparr>x_b = W (params rm) / 2, y_b = H (params rm) / 2, vx = 0, vy = 0,
                           speed = INIT_BALL_SPEED\<rparr>\<rparr>,
            broadcastEvent ss rm (Score (hearts_of rmB) l)))"
    using onScore_unfold [OF True rmB_def refl, of ss now] by simp
  have hB: "hearts (player_of rmB l) = max 0 (hearts (player_of rm l) - 1)"
    "hearts (player_of rmB (opponentSide l)) = hearts (player_of rm (opponentSide l))"
    "phase rmB = Between"
    by (cases l; simp add: rmB_def set_player_def player_of_def opponentSide_def)+
  have wB: "ws (top_pl rmB) = ws (top_pl rm)" "ws (bottom_pl rmB) = ws (bottom_pl rm)"
    by (cases l; simp add: rmB_def set_player_def player_of_def)+
  have eg: "\<And>w r. hearts_of (fst (endGame ss w r rmB)) = hearts_of rmB"
    "\<And>w r. phase (fst (endGame ss w r rmB)) = Gameover"
    "\<And>w r. player_of (fst (endGame ss w r rmB)) = player_of rmB"
    "\<And>w r. vx (ball (fst (endGame ss w r rmB))) = 0"
    "\<And>w r. vy (ball (fst (endGame ss w r rmB))) = 0"
    "\<And>w r. snd (endGame ss w r rmB) = broadcastEvent ss rm (GameOver w r (hearts_of rmB))"
    using wB
    by (simp_all add: endGame_def Let_def hearts_of_def player_of_def fun_eq_iff
        broadcastEvent_def split: side.splits)
  have tie: "hearts (top_pl rmB) \<le> 0 \<and> hearts (bottom_pl rmB) \<le> 0 \<Longrightarrow> hearts (player_of rmB l) \<le> 0"
    by (cases l) (simp_all add: player_of_def)
  consider (tie) "hearts (top_pl rmB) \<le> 0 \<and> hearts (bottom_pl rmB) \<le> 0"
    | (lost) "\<not> (hearts (top_pl rmB) \<le> 0 \<and> hearts (bottom_pl rmB) \<le> 0)" "hearts (player_of rmB l) \<le> 0"
    | (on) "0 < hearts (player_of rmB l)"
    by linarith
  then show ?thesis
  proof cases
    case tie
    have v: "onScore ss now l rm = (fst (endGame ss None ''tie'' rmB),
        broadcastEvent ss rm (Score (hearts_of rmB) l) @ snd (endGame ss None ''tie'' rmB))"
      using tie by (simp add: u)
    have lo: "hearts (player_of rmB l) \<le> 0" "hearts (player_of rmB (opponentSide l)) \<le> 0"
      using tie by (cases l; simp add: player_of_def opponentSide_def)+
    have "max 0 (hearts (player_of rm l) - 1) \<le> 0"
      using lo(1) hB(1) by simp
    then show ?thesis
      using True lo hB eg by (simp add: v Let_def)
  next
    case lost
    have v: "onScore ss now l rm = (fst (endGame ss (Some (opponentSide l)) ''hearts'' rmB),
        broadcastEvent ss rm (Score (hearts_of rmB) l)
          @ snd (endGame ss (Some (opponentSide l)) ''hearts'' rmB))"
      using lost by (auto simp add: u)
    have op: "\<not> hearts (player_of rmB (opponentSide l)) \<le> 0"
      using lost by (cases l; simp add: player_of_def opponentSide_def)
    have "max 0 (hearts (player_of rm l) - 1) \<le> 0"
      using lost(2) hB(1) by simp
    then show ?thesis
      using True lost(2) op hB eg by (simp add: v Let_def)
  next
    case on
    have nt: "\<not> (hearts (top_pl rmB) \<le> 0 \<and> hearts (bottom_pl rmB) \<le> 0)"
      using on by (cases l) (simp_all add: player_of_def)
    define rmC where "rmC = rmB\<lparr>serveToward := l, nextPhaseAt := now + 1500,
                 ball := \<lparr>x_b = W (params rm) / 2, y_b = H (params rm) / 2, vx = 0, vy = 0,
                           speed = INIT_BALL_SPEED\<rparr>\<rparr>"
    have v: "onScore ss now l rm = (rmC, broadcastEvent ss rm (Score (hearts_of rmB) l))"
      using on nt by (auto simp add: u rmC_def)
    have hh: "hearts_of rmC = hearts_of rmB" "\<And>sd. player_of rmC sd = player_of rmB sd"
      "phase rmC = Between" "serveToward rmC = l" "nextPhaseAt rmC = now + 1500"
      "ball rmC = \<lparr>x_b = W (params rm) / 2, y_b = H (params rm) / 2, vx = 0, vy = 0,
                           speed = INIT_BALL_SPEED\<rparr>"
      using hB(3) by (simp_all add: rmC_def hearts_of_def player_of_def split: side.splits)
    show ?thesis
      using True on hB(1,2) by (simp add: v Let_def hh)
  qed
qed

section \<open>Hearts and the end of the game\<close>

lemma onScore_hearts_Top:
  "phase rm = Playing \<Longrightarrow>
   hearts (top_pl (fst (onScore ss now Top rm))) = max 0 (hearts (top_pl rm) - 1) \<and>
   hearts (bottom_pl (fst (onScore ss now Top rm))) = hearts (bottom_pl rm)"
  by (simp add: onScore_def Let_def endGame_def player_of_def set_player_def split: prod.splits)

lemma onScore_hearts_Bottom:
  "phase rm = Playing \<Longrightarrow>
   hearts (bottom_pl (fst (onScore ss now Bottom rm))) = max 0 (hearts (bottom_pl rm) - 1) \<and>
   hearts (top_pl (fst (onScore ss now Bottom rm))) = hearts (top_pl rm)"
  by (simp add: onScore_def Let_def endGame_def player_of_def set_player_def split: prod.splits)

lemma onScore_phase:
  "phase rm = Playing \<Longrightarrow>
   phase (fst (onScore ss now l rm)) =
     (if hearts (player_of (fst (onScore ss now l rm)) l) \<le> 0 then Gameover else Between)"
  by (cases l) (auto simp add: onScore_def Let_def endGame_def player_of_def set_player_def split: prod.splits)

lemma after_misses_inv:
  "after_misses n rm \<Longrightarrow>
     0 \<le> hearts (top_pl rm) \<and> 0 \<le> hearts (bottom_pl rm)
   \<and> hearts (top_pl rm) + hearts (bottom_pl rm) + int n = 2 * HEARTS_START
   \<and> (phase rm = Gameover \<longleftrightarrow> hearts (top_pl rm) = 0 \<or> hearts (bottom_pl rm) = 0)
   \<and> (1 \<le> hearts (top_pl rm) \<or> 1 \<le> hearts (bottom_pl rm))"
proof (induction rule: after_misses.induct)
  case (start rm)
  then show ?case by (simp add: HEARTS_START_def)
next
  case (miss n rm ss now loserSide)
  then show ?case
  proof (cases loserSide)
    case Top
    with miss show ?thesis
      using onScore_hearts_Top [of rm ss now] onScore_phase [of rm ss now Top]
      by (auto simp add: player_of_def)
  next
    case Bottom
    with miss show ?thesis
      using onScore_hearts_Bottom [of rm ss now] onScore_phase [of rm ss now Bottom]
      by (auto simp add: player_of_def)
  qed
next
  case (serve n rm rnd)
  then show ?case by (auto simp add: serveBall_def Let_def)
next
  case (leave n rm sd)
  then show ?case by (cases sd) (auto simp add: set_player_def player_of_def)
qed auto

text \<open>
  Claim C7. After \<open>n\<close> misses of a room that started with \<open>HEARTS_START\<close> hearts on each
  side, the hearts of the two sides add up to \<open>2 * HEARTS_START - n\<close> (each miss took
  exactly one heart), the phase is \<open>gameover\<close> exactly when a side has no heart left, and
  \<open>n\<close> is at most \<open>2 * HEARTS_START - 1 = 5\<close>: with the fifth miss at the latest the room
  is in \<open>gameover\<close>, where \<open>onScore\<close> no longer acts.
\<close>

theorem gameover_within_five_misses:
  "after_misses n rm \<Longrightarrow>
     int n \<le> 2 * HEARTS_START - 1
   \<and> (int n = 2 * HEARTS_START - 1 \<longrightarrow> phase rm = Gameover)
   \<and> hearts (top_pl rm) + hearts (bottom_pl rm) = 2 * HEARTS_START - int n
   \<and> (phase rm = Gameover \<longleftrightarrow> hearts (top_pl rm) = 0 \<or> hearts (bottom_pl rm) = 0)"
  using after_misses_inv [of n rm] by auto

text \<open>
  The trace predicate covers the tick timer: one \<open>tick\<close> is a sequence of its steps with
  at most one miss.
\<close>

lemma integrate_after_misses:
  assumes "after_misses n rm" "phase rm = Playing"
  shows "after_misses n (fst (integrate ss t dt rm)) \<or> after_misses (Suc n) (fst (integrate ss t dt rm))"
proof -
  have mv: "\<And>b. after_misses n (rm\<lparr>ball := b\<rparr>)" using assms(1) by (rule after_misses.move)
  have ph: "\<And>b. phase (rm\<lparr>ball := b\<rparr>) = Playing" using assms(2) by simp
  have bounce: "\<And>b sd c. after_misses n (paddleBounce sd c (rm\<lparr>ball := b\<rparr>))"
    using after_misses.move [OF assms(1)] by (simp add: paddleBounce_def Let_def)
  have sc: "\<And>b l. after_misses (Suc n) (fst (onScore ss t l (rm\<lparr>ball := b\<rparr>)))"
    using after_misses.miss [OF mv ph] by simp
  show ?thesis
    unfolding integrate_def Let_def
    by (simp add: mv bounce sc split: option.splits)
qed

lemma tick_after_misses:
  assumes "after_misses n rm"
  shows "after_misses n (fst (tick ss t rnd rm)) \<or> after_misses (Suc n) (fst (tick ss t rnd rm))"
proof -
  have ck: "after_misses n (rm\<lparr>lastTickAt := t\<rparr>)" using assms by (rule after_misses.clock)
  have sv: "phase rm = Countdown \<or> phase rm = Between \<Longrightarrow>
    after_misses n ((serveBall rnd (rm\<lparr>lastTickAt := t\<rparr>))\<lparr>phase := Playing\<rparr>)"
    using after_misses.serve [OF ck] by simp
  have ig: "\<And>dt. phase rm = Playing \<Longrightarrow>
     after_misses n (fst (integrate ss t dt (rm\<lparr>lastTickAt := t\<rparr>)))
   \<or> after_misses (Suc n) (fst (integrate ss t dt (rm\<lparr>lastTickAt := t\<rparr>)))"
    using integrate_after_misses [OF ck] by simp
  show ?thesis
    unfolding tick_def Let_def
    using ck sv ig by auto
qed


lemma serve_then_miss:
  assumes "after_misses n rm" "phase rm = Countdown \<or> phase rm = Between"
  shows "after_misses (Suc n) (fst (onScore ss now l ((serveBall rnd rm)\<lparr>phase := Playing\<rparr>)))"
  by (rule after_misses.miss [OF after_misses.serve [OF assms]]) simp

lemma ex_miss_step:
  "hearts (top_pl rm) = a \<Longrightarrow> hearts (bottom_pl rm) = b \<Longrightarrow>
   hearts (top_pl (fst (onScore ss now l ((serveBall rnd rm)\<lparr>phase := Playing\<rparr>))))
     = (if l = Top then max 0 (a - 1) else a) \<and>
   hearts (bottom_pl (fst (onScore ss now l ((serveBall rnd rm)\<lparr>phase := Playing\<rparr>))))
     = (if l = Bottom then max 0 (b - 1) else b) \<and>
   phase (fst (onScore ss now l ((serveBall rnd rm)\<lparr>phase := Playing\<rparr>)))
     = (if (if l = Top then max 0 (a - 1) else max 0 (b - 1)) \<le> 0 then Gameover else Between)"
  using onScore_hearts_Top [of "(serveBall rnd rm)\<lparr>phase := Playing\<rparr>" ss now]
    onScore_hearts_Bottom [of "(serveBall rnd rm)\<lparr>phase := Playing\<rparr>" ss now]
    onScore_phase [of "(serveBall rnd rm)\<lparr>phase := Playing\<rparr>" ss now l]
  by (cases l) (simp_all add: serveBall_def Let_def player_of_def)

lemma ex_four_trace:
  "after_misses 4 ex_four \<and> hearts (top_pl ex_four) = 1 \<and> hearts (bottom_pl ex_four) = 1 \<and>
   phase ex_four = Between"
proof -
  define r1 where "r1 = ex_misses [Top] ex_room"
  define r2 where "r2 = ex_misses [Bottom] r1"
  define r3 where "r3 = ex_misses [Top] r2"
  have e4: "ex_four = ex_misses [Bottom] r3"
    by (simp add: ex_four_def r1_def r2_def r3_def)
  have a0: "after_misses 0 ex_room" "phase ex_room = Countdown"
    by (rule after_misses.start) (simp_all add: ex_room_eq HEARTS_START_def)
  have h0: "hearts (top_pl ex_room) = 3" "hearts (bottom_pl ex_room) = 3"
    by (simp_all add: ex_room_eq)
  have s1: "hearts (top_pl r1) = 2 \<and> hearts (bottom_pl r1) = 3 \<and> phase r1 = Between"
    unfolding r1_def using ex_miss_step [OF h0, of ex_store 5000 Top "1 / 2"] by simp
  have a1: "after_misses 1 r1"
    unfolding r1_def using serve_then_miss [OF a0(1), of ex_store 5000 Top "1 / 2"] a0(2)
    by simp
  have s2: "hearts (top_pl r2) = 2 \<and> hearts (bottom_pl r2) = 2 \<and> phase r2 = Between"
    unfolding r2_def using ex_miss_step [of r1 2 3 ex_store 5000 Bottom "1 / 2"] s1 by simp
  have a2: "after_misses 2 r2"
    unfolding r2_def using serve_then_miss [OF a1, of ex_store 5000 Bottom "1 / 2"] s1
    by (simp add: numeral_2_eq_2)
  have s3: "hearts (top_pl r3) = 1 \<and> hearts (bottom_pl r3) = 2 \<and> phase r3 = Between"
    unfolding r3_def using ex_miss_step [of r2 2 2 ex_store 5000 Top "1 / 2"] s2 by simp
  have a3: "after_misses 3 r3"
    unfolding r3_def using serve_then_miss [OF a2, of ex_store 5000 Top "1 / 2"] s2
    by (simp add: numeral_3_eq_3 numeral_2_eq_2)
  have s4: "hearts (top_pl ex_four) = 1 \<and> hearts (bottom_pl ex_four) = 1 \<and>
      phase ex_four = Between"
    unfolding e4 using ex_miss_step [of r3 1 2 ex_store 5000 Bottom "1 / 2"] s3 by simp
  have a4: "after_misses (Suc 3) ex_four"
    unfolding e4 using serve_then_miss [OF a3, of ex_store 5000 Bottom "1 / 2"] s3
    by simp
  then have "after_misses 4 ex_four"
    by (simp add: eval_nat_numeral)
  with s4 show ?thesis by simp
qed

lemma ex_match_point_trace:
  "after_misses 4 ex_match_point \<and> phase ex_match_point = Playing \<and>
   hearts (top_pl ex_match_point) = 1 \<and> hearts (bottom_pl ex_match_point) = 1"
  unfolding ex_match_point_def
  using after_misses.serve [of 4 ex_four "1 / 2"] ex_four_trace
  by (simp add: serveBall_def Let_def)

lemma ex_five_eq: "ex_five = fst (onScore ex_store 5000 Top ex_match_point)"
  by (simp add: ex_five_def ex_four_def ex_match_point_def)

lemma onScore_ws:
  "ws (top_pl (fst (onScore ss now l rm))) = ws (top_pl rm) \<and>
   ws (bottom_pl (fst (onScore ss now l rm))) = ws (bottom_pl rm)"
  by (cases l)
    (auto simp add: onScore_def Let_def endGame_def set_player_def player_of_def
      split: prod.splits)

lemma ex_misses_ws:
  "ws (top_pl (ex_misses ls rm)) = ws (top_pl rm) \<and>
   ws (bottom_pl (ex_misses ls rm)) = ws (bottom_pl rm)"
proof (induction ls arbitrary: rm)
  case Nil
  show ?case by simp
next
  case (Cons l ls)
  show ?case
    using Cons [of "fst (onScore ex_store 5000 l ((serveBall (1 / 2) rm)\<lparr>phase := Playing\<rparr>))"]
      onScore_ws [of ex_store 5000 l "(serveBall (1 / 2) rm)\<lparr>phase := Playing\<rparr>"]
    by (simp add: serveBall_def Let_def)
qed

lemma ex_match_point_ws:
  "ws (top_pl ex_match_point) = Some 1 \<and> ws (bottom_pl ex_match_point) = Some 2"
  using ex_misses_ws [of "[Top, Bottom, Top, Bottom]" ex_room]
  by (simp add: ex_match_point_def ex_four_def serveBall_def Let_def ex_room_eq
      del: ex_misses.simps)

text \<open>
  The claim as stated fails for the miss that takes the last heart: the room is in
  \<open>gameover\<close> after \<open>onScore\<close>, not in \<open>between\<close>.
\<close>

theorem last_heart_miss_ends_in_gameover:
  "phase ex_match_point = Playing \<and>
   hearts (top_pl ex_match_point) = 1 \<and>
   phase (fst (onScore ex_store 5000 Top ex_match_point)) = Gameover \<and>
   phase (fst (onScore ex_store 5000 Top ex_match_point)) \<noteq> Between"
proof -
  have mp: "phase ex_match_point = Playing" "hearts (top_pl ex_match_point) = 1"
    using ex_match_point_trace by simp_all
  have "hearts (top_pl (fst (onScore ex_store 5000 Top ex_match_point))) = 0"
    using onScore_hearts_Top [OF mp(1), of ex_store 5000] mp(2) by simp
  then have "phase (fst (onScore ex_store 5000 Top ex_match_point)) = Gameover"
    using onScore_phase [OF mp(1), of ex_store 5000 Top] by (simp add: player_of_def)
  with mp show ?thesis by simp
qed

theorem onScore_effect_witness:
  "phase ex_playing = Playing \<and>
   onScore ex_store 5000 Top (ex_playing\<lparr>phase := Between\<rparr>)
     = (ex_playing\<lparr>phase := Between\<rparr>, []) \<and>
   hearts (top_pl (fst (onScore ex_store 5000 Top ex_playing))) = 2 \<and>
   hearts (bottom_pl (fst (onScore ex_store 5000 Top ex_playing))) = 3 \<and>
   snd (onScore ex_store 5000 Top ex_playing)
     = [(1, Score (2, 3) Top), (2, Score (2, 3) Top)] \<and>
   phase (fst (onScore ex_store 5000 Top ex_playing)) = Between \<and>
   serveToward (fst (onScore ex_store 5000 Top ex_playing)) = Top \<and>
   nextPhaseAt (fst (onScore ex_store 5000 Top ex_playing)) = 6500 \<and>
   ball (fst (onScore ex_store 5000 Top ex_playing)) =
     \<lparr>x_b = 450, y_b = 800, vx = 0, vy = 0, speed = 780\<rparr> \<and>
   phase ex_match_point = Playing \<and>
   hearts (top_pl (fst (onScore ex_store 5000 Top ex_match_point))) = 0 \<and>
   hearts (bottom_pl (fst (onScore ex_store 5000 Top ex_match_point))) = 1 \<and>
   phase (fst (onScore ex_store 5000 Top ex_match_point)) = Gameover \<and>
   vx (ball (fst (onScore ex_store 5000 Top ex_match_point))) = 0 \<and>
   vy (ball (fst (onScore ex_store 5000 Top ex_match_point))) = 0 \<and>
   snd (onScore ex_store 5000 Top ex_match_point)
     = [(1, Score (0, 1) Top), (2, Score (0, 1) Top),
        (1, GameOver (Some Bottom) ''hearts'' (0, 1)),
        (2, GameOver (Some Bottom) ''hearts'' (0, 1))]"
proof -
  have go_on: "phase ex_playing = Playing \<and>
      onScore ex_store 5000 Top (ex_playing\<lparr>phase := Between\<rparr>)
        = (ex_playing\<lparr>phase := Between\<rparr>, []) \<and>
      hearts (top_pl (fst (onScore ex_store 5000 Top ex_playing))) = 2 \<and>
      hearts (bottom_pl (fst (onScore ex_store 5000 Top ex_playing))) = 3 \<and>
      snd (onScore ex_store 5000 Top ex_playing)
        = [(1, Score (2, 3) Top), (2, Score (2, 3) Top)] \<and>
      phase (fst (onScore ex_store 5000 Top ex_playing)) = Between \<and>
      serveToward (fst (onScore ex_store 5000 Top ex_playing)) = Top \<and>
      nextPhaseAt (fst (onScore ex_store 5000 Top ex_playing)) = 6500 \<and>
      ball (fst (onScore ex_store 5000 Top ex_playing)) =
        \<lparr>x_b = 450, y_b = 800, vx = 0, vy = 0, speed = 780\<rparr>"
    using onScore_effect [of ex_playing ex_store 5000 Top]
      onScore_effect [of "ex_playing\<lparr>phase := Between\<rparr>" ex_store 5000 Top]
    by (simp add: ex_onScore_eq) (simp add: ex_playing_eq ex_room_eq)
  have mp: "phase ex_match_point = Playing" "hearts (top_pl ex_match_point) = 1"
    "hearts (bottom_pl ex_match_point) = 1"
    using ex_match_point_trace by simp_all
  have bc: "\<And>ev. broadcastEvent ex_store ex_match_point ev = [(1, ev), (2, ev)]"
    using ex_match_point_ws
    by (simp add: broadcastEvent_def safeSend_def player_of_def ex_store_open)
  have ends: "hearts (top_pl (fst (onScore ex_store 5000 Top ex_match_point))) = 0 \<and>
      hearts (bottom_pl (fst (onScore ex_store 5000 Top ex_match_point))) = 1 \<and>
      phase (fst (onScore ex_store 5000 Top ex_match_point)) = Gameover \<and>
      vx (ball (fst (onScore ex_store 5000 Top ex_match_point))) = 0 \<and>
      vy (ball (fst (onScore ex_store 5000 Top ex_match_point))) = 0 \<and>
      snd (onScore ex_store 5000 Top ex_match_point)
        = [(1, Score (0, 1) Top), (2, Score (0, 1) Top),
           (1, GameOver (Some Bottom) ''hearts'' (0, 1)),
           (2, GameOver (Some Bottom) ''hearts'' (0, 1))]"
    using onScore_effect [of ex_match_point ex_store 5000 Top] mp
    by (simp add: Let_def player_of_def opponentSide_def bc hearts_of_def)
  show ?thesis
    using go_on mp(1) ends by simp
qed

theorem gameover_within_five_misses_witness:
  "after_misses 5 ex_five \<and> phase ex_five = Gameover \<and>
   hearts (top_pl ex_five) = 0 \<and> hearts (bottom_pl ex_five) = 1"
proof -
  have mp: "after_misses 4 ex_match_point" "phase ex_match_point = Playing"
    using ex_match_point_trace by simp_all
  have "after_misses (Suc 4) ex_five"
    unfolding ex_five_eq by (rule after_misses.miss [OF mp])
  then have a5: "after_misses 5 ex_five"
    by simp
  have s5: "hearts (top_pl ex_five) = 0 \<and> hearts (bottom_pl ex_five) = 1"
    unfolding ex_five_eq
    using onScore_hearts_Top [OF mp(2), of ex_store 5000] ex_match_point_trace by simp
  show ?thesis
    using gameover_within_five_misses [OF a5] a5 s5 by (simp add: HEARTS_START_def)
qed

section \<open>The tie branch\<close>

lemma integrate_sent:
  assumes "\<And>b l. Q (snd (onScore ss t l (rm\<lparr>ball := b\<rparr>)))" and "Q []"
  shows "Q (snd (integrate ss t dt rm))"
  unfolding integrate_def Let_def
  by (simp add: assms split: option.splits)

lemma tick_sent:
  assumes "\<And>b l. Q (snd (onScore ss t l (rm\<lparr>lastTickAt := t, ball := b\<rparr>)))" and "Q []"
  shows "Q (snd (tick ss t rnd rm))"
proof -
  have "\<And>dt. Q (snd (integrate ss t dt (rm\<lparr>lastTickAt := t\<rparr>)))"
    by (rule integrate_sent) (simp_all add: assms)
  then show ?thesis
    unfolding tick_def Let_def by (simp add: assms(2))
qed

lemma broadcastEvent_msg: "(a, m) \<in> set (broadcastEvent ss rm ev) \<Longrightarrow> m = ev"
  by (auto simp add: broadcastEvent_def safeSend_def split: option.splits if_splits)

lemma onScore_sent_msg:
  assumes "(a, m) \<in> set (snd (onScore ss now l rm))"
    and "1 \<le> hearts (top_pl rm)" "1 \<le> hearts (bottom_pl rm)"
  shows "m \<noteq> GameOver None rsn h"
proof (cases "phase rm = Playing")
  case False
  with assms(1) show ?thesis by (simp add: onScore_def)
next
  case True
  show ?thesis
  proof (cases l)
    case Top
    with True assms show ?thesis
      by (auto simp add: onScore_def Let_def endGame_def player_of_def set_player_def
          opponentSide_def split: if_splits dest!: broadcastEvent_msg)
  next
    case Bottom
    with True assms show ?thesis
      by (auto simp add: onScore_def Let_def endGame_def player_of_def set_player_def
          opponentSide_def split: if_splits dest!: broadcastEvent_msg)
  qed
qed

lemma onScore_no_tie:
  assumes "after_misses n rm"
  shows "\<not> (hearts (top_pl (fst (onScore ss now l rm))) \<le> 0 \<and>
             hearts (bottom_pl (fst (onScore ss now l rm))) \<le> 0)"
    and "(a, GameOver None rsn h) \<notin> set (snd (onScore ss now l rm))"
proof -
  have inv: "0 \<le> hearts (top_pl rm)" "0 \<le> hearts (bottom_pl rm)"
    "phase rm = Gameover \<longleftrightarrow> hearts (top_pl rm) = 0 \<or> hearts (bottom_pl rm) = 0"
    "1 \<le> hearts (top_pl rm) \<or> 1 \<le> hearts (bottom_pl rm)"
    using after_misses_inv [OF assms] by auto
  show "\<not> (hearts (top_pl (fst (onScore ss now l rm))) \<le> 0 \<and>
             hearts (bottom_pl (fst (onScore ss now l rm))) \<le> 0)"
  proof (cases "phase rm = Playing")
    case True
    then show ?thesis
      using inv onScore_hearts_Top [of rm ss now] onScore_hearts_Bottom [of rm ss now]
      by (cases l) auto
  next
    case False
    then have "onScore ss now l rm = (rm, [])" by (simp add: onScore_def)
    then show ?thesis using inv(4) by auto
  qed
  show "(a, GameOver None rsn h) \<notin> set (snd (onScore ss now l rm))"
  proof (cases "phase rm = Playing")
    case True
    then have "1 \<le> hearts (top_pl rm)" "1 \<le> hearts (bottom_pl rm)"
      using inv by auto
    then show ?thesis
      using onScore_sent_msg [of a "GameOver None rsn h" ss now l rm rsn h] by blast
  next
    case False
    then show ?thesis by (simp add: onScore_def)
  qed
qed

text \<open>
  Claim C8. In every state a room can reach from its start, a call of \<open>onScore\<close> never
  leaves both sides without a heart, so the condition of the \<open>tie\<close> branch is false
  whenever it is evaluated; no \<open>gameOver\<close> frame without a winner is sent, neither by
  \<open>onScore\<close> nor by a whole \<open>tick\<close>.
\<close>

theorem tie_branch_unreachable:
  assumes "after_misses n rm"
  shows "\<not> (hearts (top_pl (fst (onScore ss now l rm))) \<le> 0 \<and>
            hearts (bottom_pl (fst (onScore ss now l rm))) \<le> 0)
       \<and> (a, GameOver None rsn h) \<notin> set (snd (onScore ss now l rm))
       \<and> (a, GameOver None rsn h) \<notin> set (snd (tick ss t rnd rm))"
proof -
  have "\<And>b. after_misses n (rm\<lparr>lastTickAt := t, ball := b\<rparr>)"
    using after_misses.move [OF after_misses.clock [OF assms]] by simp
  then have "\<And>b l'. (a, GameOver None rsn h)
      \<notin> set (snd (onScore ss t l' (rm\<lparr>lastTickAt := t, ball := b\<rparr>)))"
    by (rule onScore_no_tie(2))
  then have "(a, GameOver None rsn h) \<notin> set (snd (tick ss t rnd rm))"
    by (rule tick_sent) simp
  then show ?thesis
    using onScore_no_tie [OF assms] by simp
qed

theorem tie_branch_unreachable_witness:
  "after_misses 4 ex_match_point \<and> phase ex_match_point = Playing \<and>
   hearts (top_pl (fst (onScore ex_store 5000 Top ex_match_point))) = 0 \<and>
   hearts (bottom_pl (fst (onScore ex_store 5000 Top ex_match_point))) = 1 \<and>
   (2, GameOver None ''tie'' (0, 1)) \<notin> set (snd (onScore ex_store 5000 Top ex_match_point)) \<and>
   (2, GameOver None ''tie'' (0, 1)) \<notin> set (snd (tick ex_store 5000 (1 / 2) ex_match_point))"
proof -
  have mp: "after_misses 4 ex_match_point" "phase ex_match_point = Playing"
    using ex_match_point_trace by simp_all
  show ?thesis
    using tie_branch_unreachable [OF mp(1), of ex_store 5000 Top 2 "''tie''" "(0, 1)" 5000 "1 / 2"]
      onScore_hearts_Top [OF mp(2), of ex_store 5000] ex_match_point_trace
    by simp
qed

section \<open>The paddle bounce\<close>

lemma cos_lower_bound: "1 - x\<^sup>2 / 2 \<le> cos (x::real)"
proof -
  have "(sin (x / 2))\<^sup>2 \<le> (x / 2)\<^sup>2"
    using abs_sin_x_le_abs_x [of "x / 2"] by (simp only: abs_le_square_iff)
  moreover have "cos x = 1 - 2 * (sin (x / 2))\<^sup>2"
    using cos_double_sin [of "x / 2"] by simp
  ultimately show ?thesis by (simp add: power_divide)
qed

lemma cos_bounce_pos:
  assumes "- 1 \<le> rel" "rel \<le> 1"
  shows "0 < cos (rel * MAX_BOUNCE_ANGLE)"
proof -
  define a where "a = rel * MAX_BOUNCE_ANGLE"
  have "\<bar>a\<bar> \<le> \<bar>105 / 100\<bar>"
    using assms by (simp add: a_def MAX_BOUNCE_ANGLE_def abs_le_iff)
  then have "a\<^sup>2 \<le> (105 / 100)\<^sup>2"
    by (simp only: abs_le_square_iff)
  then have "a\<^sup>2 \<le> 11025 / 10000"
    by (simp add: power2_eq_square)
  then have "0 < 1 - a\<^sup>2 / 2"
    by linarith
  then show ?thesis
    using cos_lower_bound [of a] unfolding a_def by linarith
qed

lemma clamp_bounds: "lo \<le> hi \<Longrightarrow> lo \<le> clamp v lo hi \<and> clamp v lo hi \<le> hi"
  by (simp add: clamp_def)

text \<open>
  Claim C6. For a room whose paddle width is positive (every room \<open>makeRoom\<close> builds has
  \<open>pw = 252\<close>), \<open>paddleBounce(side, cx)\<close> sets \<open>vx = newSpeed * sin \<theta>\<close> and
  \<open>vy = \<plusminus>|newSpeed * cos \<theta>|\<close>, positive for \<open>top\<close> and negative for \<open>bottom\<close>, both
  strictly, and \<open>speed = newSpeed\<close>, where \<open>rel\<close>, \<open>newSpeed\<close> and \<open>\<theta>\<close> are as in the
  claim and \<open>newSpeed\<close> lies in \<open>[100, MAX_BALL_SPEED]\<close>.
\<close>

theorem paddleBounce_effect:
  assumes "0 < pw (params rm)"
  shows "let b = ball rm;
             rel = clamp ((x_b b - cx) / (pw (params rm) / 2)) (- 1) 1;
             newSpeed = clamp (speed b * SPEED_UP) 100 MAX_BALL_SPEED;
             \<theta> = rel * MAX_BOUNCE_ANGLE;
             b' = ball (paddleBounce sd cx rm)
         in vx b' = newSpeed * sin \<theta>
          \<and> vy b' = (if sd = Top then 1 else - 1) * \<bar>newSpeed * cos \<theta>\<bar>
          \<and> (if sd = Top then 0 < vy b' else vy b' < 0)
          \<and> speed b' = newSpeed \<and> 100 \<le> newSpeed \<and> newSpeed \<le> MAX_BALL_SPEED"
proof -
  define rel where "rel = clamp ((x_b (ball rm) - cx) / (pw (params rm) / 2)) (- 1) 1"
  define newSpeed where "newSpeed = clamp (speed (ball rm) * SPEED_UP) 100 MAX_BALL_SPEED"
  have r: "- 1 \<le> rel" "rel \<le> 1"
    using clamp_bounds [of "- 1" 1] by (simp_all add: rel_def)
  have n: "100 \<le> newSpeed" "newSpeed \<le> MAX_BALL_SPEED"
    using clamp_bounds [of 100 MAX_BALL_SPEED] by (simp_all add: newSpeed_def MAX_BALL_SPEED_def)
  have c: "0 < cos (rel * MAX_BOUNCE_ANGLE)"
    using r by (rule cos_bounce_pos)
  have pos: "0 < \<bar>newSpeed * cos (rel * MAX_BOUNCE_ANGLE)\<bar>"
    using n c by simp
  show ?thesis
    unfolding paddleBounce_def Let_def rel_def [symmetric] newSpeed_def [symmetric]
    using n pos by (cases sd) simp_all
qed

theorem paddleBounce_effect_witness:
  "0 < pw (params ex_playing) \<and>
   vx (ball (paddleBounce Bottom 450 ex_playing)) = 0 \<and>
   vy (ball (paddleBounce Bottom 450 ex_playing)) = - (8034 / 10) \<and>
   vy (ball (paddleBounce Bottom 450 ex_playing)) < 0 \<and>
   speed (ball (paddleBounce Bottom 450 ex_playing)) = 8034 / 10"
  using paddleBounce_effect [of ex_playing 450 Bottom]
  by (simp add: ex_playing_eq ex_room_eq clamp_def SPEED_UP_def MAX_BALL_SPEED_def
      MAX_BOUNCE_ANGLE_def Let_def)

section \<open>The serve\<close>

lemma serveBall_velocity:
  "vx (ball (serveBall rnd rm)) = INIT_BALL_SPEED * sin (rnd * (8 / 10) - 4 / 10) \<and>
   vy (ball (serveBall rnd rm)) = (if serveToward rm = Top then - 1 else 1) * cos (rnd * (8 / 10) - 4 / 10)"
  by (simp add: serveBall_def Let_def)

text \<open>
  Claim C1. The claim has the served velocity \<open>(s * sin \<theta>, dir * s * cos \<theta>)\<close> of
  magnitude \<open>s = INIT_BALL_SPEED\<close>. \<open>serveBall\<close> multiplies only \<open>vx\<close> by the speed: the
  example room, served toward \<open>bottom\<close> with \<open>Math.random() = 0.5\<close> (angle 0), enters
  \<open>playing\<close> with the ball at the centre, \<open>speed = 780\<close> and velocity \<open>(0, 1)\<close>, of
  magnitude 1.
\<close>

theorem serve_speed_not_applied_to_vy:
  "phase ex_room = Countdown \<and> serveToward ex_room = Bottom \<and>
   phase (fst (tick ex_store 4000 (1 / 2) ex_room)) = Playing \<and>
   ball (fst (tick ex_store 4000 (1 / 2) ex_room))
     = \<lparr>x_b = 450, y_b = 800, vx = 0, vy = 1, speed = 780\<rparr> \<and>
   sqrt ((vx (ball (fst (tick ex_store 4000 (1 / 2) ex_room))))\<^sup>2
       + (vy (ball (fst (tick ex_store 4000 (1 / 2) ex_room))))\<^sup>2) = 1"
  by (simp add: ex_playing_def [symmetric] ex_playing_eq) (simp add: ex_room_eq)

section \<open>Paddle input\<close>


lemma clamp_js_in_unit: "v \<noteq> NaN \<Longrightarrow> in_unit (clamp_js v (Fin 0) (Fin 1))"
  by (cases v) (simp_all add: in_unit_def clamp_js_def js_min_def js_max_def)

lemma in_unit_iff: "in_unit v \<longleftrightarrow> (\<exists>r. v = Fin r \<and> 0 \<le> r \<and> r \<le> 1)"
  by (cases v) (simp_all add: in_unit_def)




section \<open>Registry updates\<close>

lemma destroyRoom_fields:
  "sessions (destroyRoom rid s) = sessions s"
  "outbox (destroyRoom rid s) = outbox s"
  "rooms (destroyRoom rid s) = (rooms s)(rid := None)"
  by (auto simp add: destroyRoom_def put_room_def split: option.splits)

lemma send_all_fields:
  "sessions (send_all fs s) = sessions s"
  "rooms (send_all fs s) = rooms s"
  "outbox (send_all fs s) = outbox s @ fs"
  by (simp_all add: send_all_def)

lemma put_room_fields:
  "sessions (put_room rid rm s) = sessions s"
  "rooms (put_room rid rm s) = (rooms s)(rid \<mapsto> rm)"
  "outbox (put_room rid rm s) = outbox s"
  by (simp_all add: put_room_def)

lemma makeRoom_swap_sessions:
  assumes "a \<noteq> b"
  shows "sessions (snd (makeRoom newid r1 r2 now a b True s)) =
           (sessions s)(a := (sessions s a)\<lparr>side_s := Some Top, roomId := Some newid\<rparr>,
                        b := (sessions s b)\<lparr>side_s := Some Bottom, roomId := Some newid\<rparr>)"
  using assms by (simp add: makeRoom_defs fun_upd_twist)

lemma makeRoom_swap_room:
  "ws (top_pl (fst (makeRoom newid r1 r2 now a b True s))) = Some a"
  "ws (bottom_pl (fst (makeRoom newid r1 r2 now a b True s))) = Some b"
  "hearts_of (fst (makeRoom newid r1 r2 now a b True s)) = (HEARTS_START, HEARTS_START)"
  "id_r (fst (makeRoom newid r1 r2 now a b True s)) = newid"
  by (simp_all add: makeRoom_defs hearts_of_def)

lemma makeRoom_rooms:
  "rooms (snd (makeRoom newid r1 r2 now a b sw s)) =
     (rooms s)(newid \<mapsto> fst (makeRoom newid r1 r2 now a b sw s))"
  by (simp add: makeRoom_defs split: prod.splits)


section \<open>Rematch\<close>

text \<open>
  \<open>startRematch\<close> passes the old top socket as \<open>a\<close> and the old bottom socket as \<open>b\<close>
  to \<open>makeRoom(a, b, true)\<close>, whose \<open>swapSides\<close> branch makes \<open>a\<close> the top player: every
  rematch keeps the two players on the sides they had.
\<close>

lemma startRematch_sides:
  assumes old: "rooms s old = Some rm"
    and a: "ws (top_pl rm) = Some a" and b: "ws (bottom_pl rm) = Some b" and ab: "a \<noteq> b"
    and idr: "id_r rm = old" and fresh: "newid \<noteq> old"
  shows "\<exists>s' nr. startRematch newid rnd now old s = Inr s' \<and>
     side_s (sessions s' a) = Some Top \<and> side_s (sessions s' b) = Some Bottom \<and>
     roomId (sessions s' a) = Some newid \<and> roomId (sessions s' b) = Some newid \<and>
     rooms s' old = None \<and> rooms s' newid = Some nr \<and>
     ws (top_pl nr) = Some a \<and> ws (bottom_pl nr) = Some b \<and>
     hearts_of nr = (HEARTS_START, HEARTS_START) \<and> phase nr = Countdown \<and>
     nextPhaseAt nr = now + 3000"
proof -
  define s1 where "s1 = put_room old (rm\<lparr>vote_top := False, vote_bottom := False\<rparr>) s"
  define mk where "mk = makeRoom newid 0 rnd now a b True s1"
  define nr where "nr = (fst mk)\<lparr>
      top_pl := (top_pl (fst mk))\<lparr>hearts := HEARTS_START\<rparr>,
      bottom_pl := (bottom_pl (fst mk))\<lparr>hearts := HEARTS_START\<rparr>,
      phase := Countdown, nextPhaseAt := now + 3000\<rparr>"
  define s3 where "s3 = put_room newid nr (snd mk)"
  define s4 where "s4 = send_all (broadcastEvent (sessions s3) nr (RematchStart 3)) s3"
  have res: "startRematch newid rnd now old s = Inr (destroyRoom old s4)"
    using old a b idr
    by (simp add: startRematch_def Let_def case_prod_beta s1_def mk_def nr_def s3_def s4_def)
  have ss: "sessions (destroyRoom old s4) =
      (sessions s)(a := (sessions s a)\<lparr>side_s := Some Top, roomId := Some newid\<rparr>,
                   b := (sessions s b)\<lparr>side_s := Some Bottom, roomId := Some newid\<rparr>)"
    using makeRoom_swap_sessions [OF ab, of newid 0 rnd now s1]
    by (simp add: destroyRoom_fields s4_def send_all_fields s3_def put_room_fields mk_def s1_def)
  have rs: "rooms (destroyRoom old s4) = ((rooms (snd mk))(newid \<mapsto> nr))(old := None)"
    by (simp add: destroyRoom_fields s4_def send_all_fields s3_def put_room_fields)
  have nrf: "ws (top_pl nr) = Some a" "ws (bottom_pl nr) = Some b"
    "hearts_of nr = (HEARTS_START, HEARTS_START)" "phase nr = Countdown"
    "nextPhaseAt nr = now + 3000"
    using makeRoom_swap_room [of newid 0 rnd now a b s1]
    by (simp_all add: nr_def mk_def hearts_of_def)
  show ?thesis
    using res ss rs nrf ab fresh by simp
qed


lemma ex_first_vote:
  "on_message ex_conv ex_draws 9000 1 (Some ex_rematch_frame) ex_over =
     Inr (send_all [(2, RematchOffered)]
           (put_room 7 (ex_room\<lparr>phase := Gameover, lastTickAt := 9000,
                                 top_pl := (top_pl ex_room)\<lparr>hearts := 0\<rparr>,
                                 vote_top := True\<rparr>) ex_over))"
  by (simp add: on_message_def ex_rematch_frame_def not_object_def get_prop_def
      requestRematch_def ex_over_fields ex_server1_sessions ex_room_eq ex_draws_def
      opponentSide_def player_of_def safeSend_def put_room_def send_all_def Let_def
      del: One_nat_def)



lemma ex_second_vote:
  "on_message ex_conv ex_draws 9100 2 (Some ex_rematch_frame)
     (send_all [(2, RematchOffered)]
        (put_room 7 (ex_room\<lparr>phase := Gameover, lastTickAt := 9000,
                              top_pl := (top_pl ex_room)\<lparr>hearts := 0\<rparr>,
                              vote_top := True\<rparr>) ex_over))
   = startRematch 8 (1 / 4) 9100 7
       (send_all [(2, RematchOffered), (1, RematchOffered)]
          (put_room 7 (ex_room\<lparr>phase := Gameover, lastTickAt := 9000,
                                top_pl := (top_pl ex_room)\<lparr>hearts := 0\<rparr>,
                                vote_top := True, vote_bottom := True\<rparr>) ex_over))"
  by (simp add: on_message_def ex_rematch_frame_def not_object_def get_prop_def
      requestRematch_def ex_over_fields ex_server1_sessions ex_room_eq ex_draws_def
      opponentSide_def player_of_def safeSend_def put_room_def send_all_def Let_def
      del: One_nat_def)

text \<open>
  Claim C2. The claim has the rematch room assign \<open>bottom\<close> to the old top player and \<open>top\<close>
  to the old bottom player. In the example, socket 1 is top and socket 2 is bottom in room
  7, which is in \<open>gameover\<close>; both send \<open>rematchRequest\<close>. The new room 8 has hearts 3 and
  3, phase \<open>countdown\<close> and \<open>nextPhaseAt = now + 3000\<close>, and room 7 is gone, as claimed, but
  socket 1 is top and socket 2 is bottom again.
\<close>

theorem rematch_keeps_sides:
  "\<exists>s1 s2 rm.
     side_s (sessions ex_over 1) = Some Top \<and> side_s (sessions ex_over 2) = Some Bottom \<and>
     on_message ex_conv ex_draws 9000 1 (Some ex_rematch_frame) ex_over = Inr s1 \<and>
     on_message ex_conv ex_draws 9100 2 (Some ex_rematch_frame) s1 = Inr s2 \<and>
     rooms s2 7 = None \<and> rooms s2 8 = Some rm \<and>
     ws (top_pl rm) = Some 1 \<and> ws (bottom_pl rm) = Some 2 \<and>
     side_s (sessions s2 1) = Some Top \<and> side_s (sessions s2 2) = Some Bottom \<and>
     roomId (sessions s2 1) = Some 8 \<and> roomId (sessions s2 2) = Some 8 \<and>
     hearts_of rm = (3, 3) \<and> phase rm = Countdown \<and> nextPhaseAt rm = 12100"
proof -
  define old where "old = ex_room\<lparr>phase := Gameover, lastTickAt := 9000,
      top_pl := (top_pl ex_room)\<lparr>hearts := 0\<rparr>, vote_top := True, vote_bottom := True\<rparr>"
  define s where "s = send_all [(2, RematchOffered), (1, RematchOffered)] (put_room 7 old ex_over)"
  have r: "rooms s 7 = Some old"
    by (simp add: s_def send_all_fields put_room_fields)
  have w: "ws (top_pl old) = Some 1" "ws (bottom_pl old) = Some 2" "id_r old = 7"
    by (simp_all add: old_def ex_room_eq)
  obtain s2 nr where
    "startRematch 8 (1 / 4) 9100 7 s = Inr s2"
    "side_s (sessions s2 1) = Some Top" "side_s (sessions s2 2) = Some Bottom"
    "roomId (sessions s2 1) = Some 8" "roomId (sessions s2 2) = Some 8"
    "rooms s2 7 = None" "rooms s2 8 = Some nr"
    "ws (top_pl nr) = Some 1" "ws (bottom_pl nr) = Some 2"
    "hearts_of nr = (HEARTS_START, HEARTS_START)" "phase nr = Countdown"
    "nextPhaseAt nr = 9100 + 3000"
    using startRematch_sides [OF r w(1) w(2) _ w(3), of 8 "1 / 4" 9100] by auto
  moreover have "side_s (sessions ex_over 1) = Some Top" "side_s (sessions ex_over 2) = Some Bottom"
    by (simp_all add: ex_over_fields ex_server1_sessions del: One_nat_def)
  ultimately show ?thesis
    unfolding ex_first_vote
    by (simp add: ex_second_vote s_def [symmetric] old_def [symmetric] HEARTS_START_def
        del: One_nat_def)
qed

section \<open>Leaving a room\<close>

text \<open>
  Claim C3. The claim has a leave during a live match move the room to \<open>gameover\<close>. In the
  example socket 1 (top) sends \<open>leaveRoom\<close> while room 7 is \<open>playing\<close> and socket 2 is
  connected: \<open>gameOver\<close> with winner \<open>bottom\<close>, reason \<open>disconnect\<close> and the unchanged hearts
  goes to both, the top slot is emptied and the socket's room and side are cleared, as
  claimed, but the phase of the room is still \<open>playing\<close>.
\<close>

theorem leave_keeps_phase:
  "\<exists>s rm. on_message ex_conv ex_draws 4500 1 (Some ex_leave_frame) ex_server2 = Inr s \<and>
     rooms s 7 = Some rm \<and> phase rm = Playing \<and>
     ws (top_pl rm) = None \<and> ws (bottom_pl rm) = Some 2 \<and>
     hearts_of rm = (3, 3) \<and>
     outbox s = outbox ex_server2 @
       [(1, GameOver (Some Bottom) ''disconnect'' (3, 3)),
        (2, GameOver (Some Bottom) ''disconnect'' (3, 3))] \<and>
     roomId (sessions s 1) = None \<and> side_s (sessions s 1) = None"
  by (simp add: on_message_def ex_leave_frame_def not_object_def get_prop_def leaveRoom_def
      ex_server2_eq put_room_def ex_server1_sessions ex_server1_rooms ex_playing_eq ex_room_eq
      opponentSide_def player_of_def set_player_def broadcastEvent_def safeSend_def
      send_all_def hearts_of_def upd_session_def Let_def destroyRoom_def del: One_nat_def)


lemma leaveRoom_no_room: "roomId (sessions s a) = None \<Longrightarrow> leaveRoom a s = Inr s"
  by (simp add: leaveRoom_def)

lemma leaveRoom_clears_roomId:
  "leaveRoom a s = Inr s' \<Longrightarrow> roomId (sessions s' a) = None"
  by (auto simp add: leaveRoom_def Let_def upd_session_def destroyRoom_fields put_room_fields
      send_all_fields split: option.splits if_splits)

lemma leaveRoom_clears_side:
  "leaveRoom a s = Inr s' \<Longrightarrow> roomId (sessions s a) = Some rid \<Longrightarrow> rooms s rid = Some rm \<Longrightarrow>
   side_s (sessions s' a) = None"
  by (auto simp add: leaveRoom_def Let_def upd_session_def destroyRoom_fields put_room_fields
      send_all_fields split: option.splits if_splits)

lemma on_close_no_room:
  assumes "roomId (sessions s a) = None"
  shows "on_close a s = Inr (s\<lparr>waitingQueue := remove1 a (waitingQueue s),
                               clients := (clients s)(id_s (sessions s a) := None)\<rparr>)"
    and "on_error a s = Inr (s\<lparr>waitingQueue := remove1 a (waitingQueue s),
                               clients := (clients s)(id_s (sessions s a) := None)\<rparr>)"
  using assms by (simp_all add: on_close_def on_error_def leaveRoom_def Let_def)

text \<open>
  Claim C10. \<open>leaveRoom\<close> returns at once, changing nothing, for a socket without a room.
  After a leave that returned, the socket has no room, and no side either when its room was
  registered (the leave ran to its end); so a second \<open>leaveRoom\<close> is the identity, and
  the \<open>close\<close> and \<open>error\<close> handlers that follow a \<open>leaveRoom\<close> message change neither the
  rooms nor the frames sent nor the sockets: the effects on the room happen once.
\<close>

theorem leave_at_most_once:
  "(roomId (sessions s a) = None \<longrightarrow> leaveRoom a s = Inr s) \<and>
   (leaveRoom a s = Inr s' \<longrightarrow>
        roomId (sessions s' a) = None
      \<and> (\<forall>rid rm. roomId (sessions s a) = Some rid \<and> rooms s rid = Some rm \<longrightarrow>
            side_s (sessions s' a) = None)
      \<and> leaveRoom a s' = Inr s'
      \<and> (\<exists>s''. on_close a s' = Inr s'' \<and> rooms s'' = rooms s' \<and> outbox s'' = outbox s'
              \<and> sessions s'' = sessions s')
      \<and> (\<exists>s''. on_error a s' = Inr s'' \<and> rooms s'' = rooms s' \<and> outbox s'' = outbox s'
              \<and> sessions s'' = sessions s'))"
proof -
  have "leaveRoom a s = Inr s' \<Longrightarrow> roomId (sessions s' a) = None"
    by (rule leaveRoom_clears_roomId)
  moreover have "leaveRoom a s = Inr s' \<Longrightarrow>
      \<forall>rid rm. roomId (sessions s a) = Some rid \<and> rooms s rid = Some rm \<longrightarrow>
        side_s (sessions s' a) = None"
    using leaveRoom_clears_side by blast
  moreover have "roomId (sessions s' a) = None \<Longrightarrow> leaveRoom a s' = Inr s'"
    by (rule leaveRoom_no_room)
  moreover have "roomId (sessions s' a) = None \<Longrightarrow>
      \<exists>s''. on_close a s' = Inr s'' \<and> rooms s'' = rooms s' \<and> outbox s'' = outbox s'
          \<and> sessions s'' = sessions s'"
    using on_close_no_room(1) [of s' a] by simp
  moreover have "roomId (sessions s' a) = None \<Longrightarrow>
      \<exists>s''. on_error a s' = Inr s'' \<and> rooms s'' = rooms s' \<and> outbox s'' = outbox s'
          \<and> sessions s'' = sessions s'"
    using on_close_no_room(2) [of s' a] by simp
  ultimately show ?thesis
    using leaveRoom_no_room [of s a] by blast
qed

lemma ex_leave_result:
  "\<exists>s rm. leaveRoom 1 ex_server2 = Inr s \<and>
     rooms s 7 = Some rm \<and> phase rm = Playing \<and>
     ws (top_pl rm) = None \<and> ws (bottom_pl rm) = Some 2 \<and>
     hearts_of rm = (3, 3) \<and>
     outbox s = outbox ex_server2 @
       [(1, GameOver (Some Bottom) ''disconnect'' (3, 3)),
        (2, GameOver (Some Bottom) ''disconnect'' (3, 3))] \<and>
     roomId (sessions s 1) = None \<and> side_s (sessions s 1) = None"
  by (simp add: leaveRoom_def
      ex_server2_eq put_room_def ex_server1_sessions ex_server1_rooms ex_playing_eq ex_room_eq
      opponentSide_def player_of_def set_player_def broadcastEvent_def safeSend_def
      send_all_def hearts_of_def upd_session_def Let_def destroyRoom_def del: One_nat_def)

theorem leave_at_most_once_witness:
  "roomId (sessions ex_server1 3) = None \<and> leaveRoom 3 ex_server1 = Inr ex_server1 \<and>
   (\<exists>s'. roomId (sessions ex_server2 1) = Some 7 \<and> leaveRoom 1 ex_server2 = Inr s' \<and>
     roomId (sessions s' 1) = None \<and> side_s (sessions s' 1) = None \<and>
     leaveRoom 1 s' = Inr s' \<and>
     (\<exists>s''. on_close 1 s' = Inr s'' \<and> rooms s'' = rooms s' \<and> outbox s'' = outbox s'))"
proof -
  obtain s' where l: "leaveRoom 1 ex_server2 = Inr s'" and sd: "side_s (sessions s' 1) = None"
    using ex_leave_result by blast
  have r: "roomId (sessions ex_server2 1) = Some 7"
    by (simp add: ex_server2_eq put_room_fields ex_server1_sessions del: One_nat_def)
  have r3: "roomId (sessions ex_server1 3) = None"
    by (simp add: ex_server1_def ex_server0_def ex_sessions_def makeRoom_defs)
  have "leaveRoom 3 ex_server1 = Inr ex_server1"
    using leave_at_most_once [of ex_server1 3] r3 by blast
  moreover have "\<exists>s'. roomId (sessions ex_server2 1) = Some 7 \<and> leaveRoom 1 ex_server2 = Inr s' \<and>
     roomId (sessions s' 1) = None \<and> side_s (sessions s' 1) = None \<and>
     leaveRoom 1 s' = Inr s' \<and>
     (\<exists>s''. on_close 1 s' = Inr s'' \<and> rooms s'' = rooms s' \<and> outbox s'' = outbox s')"
    using leave_at_most_once [of ex_server2 1 s'] l sd r by blast
  ultimately show ?thesis
    using r3 by blast
qed


section \<open>Dispatch of inbound frames\<close>

lemma not_object_iff:
  "not_object m \<longleftrightarrow> m = JNull \<or> (\<exists>b. m = JBool b) \<or> (\<exists>n. m = JNum n) \<or> (\<exists>str. m = JStr str)"
  by (cases m) (simp_all add: not_object_def)

lemma on_message_discard:
  "data = None \<or> (\<exists>m. data = Some m \<and> not_object m) \<Longrightarrow> on_message conv d now a data s = Inr s"
  by (auto simp add: on_message_def)

lemma on_message_unknown:
  assumes "\<not> not_object m" and "\<forall>k \<in> set known_types. get_prop m ''type'' \<noteq> Some (JStr k)"
  shows "on_message conv d now a (Some m) s =
     Inr (send_all (safeSend (sessions s) (Some a) (ErrorMsg ''Unknown message type'')) s)"
  using assms by (simp add: on_message_def known_types_def Let_def)

lemma on_message_paddle_ignored:
  assumes "get_prop m ''type'' = Some (JStr ''paddle'')"
    and "roomId (sessions s a) = None \<or> side_s (sessions s a) = None"
  shows "on_message conv d now a (Some m) s = Inr s"
proof -
  have "\<not> not_object m" using assms(1) by (cases m) (simp_all add: get_prop_def not_object_def)
  then show ?thesis
    using assms by (auto simp add: on_message_def Let_def split: option.splits)
qed

lemma on_message_rematch_ignored:
  assumes "get_prop m ''type'' = Some (JStr ''rematchRequest'')"
    and "side_s (sessions s a) = None \<or>
         (\<forall>rid rm. roomId (sessions s a) = Some rid \<and> rooms s rid = Some rm \<longrightarrow> phase rm \<noteq> Gameover)"
  shows "on_message conv d now a (Some m) s = Inr s"
proof -
  have "\<not> not_object m" using assms(1) by (cases m) (simp_all add: get_prop_def not_object_def)
  then show ?thesis
    using assms
    by (auto simp add: on_message_def Let_def requestRematch_def split: option.splits prod.splits)
qed

text \<open>
  Claim C9, amended. A frame that does not parse as JSON, or that parses to \<open>null\<close>, a
  boolean, a number or a string, is discarded: the state is unchanged and nothing is sent.
  A frame that parses to an object or to an array (an array passes the handler's object
  test) and whose \<open>type\<close> is none of the five known types is answered with the
  \<open>Unknown message type\<close> error. A \<open>paddle\<close> frame from a socket without a room or without
  a side, and a \<open>rematchRequest\<close> frame from a socket without a side or whose room is not
  a registered room in \<open>gameover\<close>, change nothing and send nothing.
\<close>

theorem inbound_frame_policy:
  "(data = None \<or> (\<exists>m. data = Some m \<and>
        (m = JNull \<or> (\<exists>b. m = JBool b) \<or> (\<exists>n. m = JNum n) \<or> (\<exists>str. m = JStr str)))
      \<longrightarrow> on_message conv d now a data s = Inr s)
 \<and> (\<forall>m. data = Some m \<and> ((\<exists>kvs. m = JObj kvs) \<or> (\<exists>xs. m = JArr xs))
        \<and> (\<forall>k \<in> set known_types. get_prop m ''type'' \<noteq> Some (JStr k))
      \<longrightarrow> on_message conv d now a data s =
            Inr (send_all (safeSend (sessions s) (Some a) (ErrorMsg ''Unknown message type'')) s))
 \<and> (\<forall>m. data = Some m \<and> get_prop m ''type'' = Some (JStr ''paddle'')
        \<and> (roomId (sessions s a) = None \<or> side_s (sessions s a) = None)
      \<longrightarrow> on_message conv d now a data s = Inr s)
 \<and> (\<forall>m. data = Some m \<and> get_prop m ''type'' = Some (JStr ''rematchRequest'')
        \<and> (side_s (sessions s a) = None \<or>
             (\<forall>rid rm. roomId (sessions s a) = Some rid \<and> rooms s rid = Some rm
                \<longrightarrow> phase rm \<noteq> Gameover))
      \<longrightarrow> on_message conv d now a data s = Inr s)"
proof -
  have 1: "data = None \<or> (\<exists>m. data = Some m \<and>
        (m = JNull \<or> (\<exists>b. m = JBool b) \<or> (\<exists>n. m = JNum n) \<or> (\<exists>str. m = JStr str)))
      \<Longrightarrow> on_message conv d now a data s = Inr s"
    using on_message_discard [of data conv d now a s] not_object_iff by blast
  have 2: "\<And>m. data = Some m \<Longrightarrow> (\<exists>kvs. m = JObj kvs) \<or> (\<exists>xs. m = JArr xs) \<Longrightarrow>
      \<forall>k \<in> set known_types. get_prop m ''type'' \<noteq> Some (JStr k) \<Longrightarrow>
      on_message conv d now a data s =
        Inr (send_all (safeSend (sessions s) (Some a) (ErrorMsg ''Unknown message type'')) s)"
    using on_message_unknown [of _ conv d now a s] by (auto simp add: not_object_def)
  show ?thesis
    using 1 2 on_message_paddle_ignored [of _ s a conv d now]
      on_message_rematch_ignored [of _ s a conv d now]
    by blast
qed

theorem inbound_frame_policy_witness:
  "on_message ex_conv ex_draws 5000 1 None ex_server1 = Inr ex_server1 \<and>
   on_message ex_conv ex_draws 5000 1 (Some (JNum (Fin 3))) ex_server1 = Inr ex_server1 \<and>
   on_message ex_conv ex_draws 5000 1 (Some ex_unknown_frame) ex_server1 =
     Inr (send_all [(1, ErrorMsg ''Unknown message type'')] ex_server1) \<and>
   on_message ex_conv ex_draws 5000 3 (Some ex_paddle_frame) ex_server1 = Inr ex_server1 \<and>
   on_message ex_conv ex_draws 5000 1 (Some ex_rematch_frame) ex_server1 = Inr ex_server1"
proof -
  have t: "\<forall>k \<in> set known_types. get_prop ex_unknown_frame ''type'' \<noteq> Some (JStr k)"
    by (simp add: known_types_def ex_unknown_frame_def get_prop_def)
  have p: "get_prop ex_paddle_frame ''type'' = Some (JStr ''paddle'')"
    "get_prop ex_rematch_frame ''type'' = Some (JStr ''rematchRequest'')"
    by (simp_all add: ex_paddle_frame_def ex_rematch_frame_def get_prop_def)
  have r3: "roomId (sessions ex_server1 3) = None"
    by (simp add: ex_server1_def ex_server0_def ex_sessions_def makeRoom_defs)
  have ph: "\<forall>rid rm. roomId (sessions ex_server1 1) = Some rid \<and> rooms ex_server1 rid = Some rm
      \<longrightarrow> phase rm \<noteq> Gameover"
    by (simp add: ex_server1_sessions ex_server1_rooms ex_room_eq del: One_nat_def)
  have o: "safeSend (sessions ex_server1) (Some 1) (ErrorMsg ''Unknown message type'')
      = [(1, ErrorMsg ''Unknown message type'')]"
    by (simp add: safeSend_def ex_server1_sessions del: One_nat_def)
  show ?thesis
    using inbound_frame_policy [of None ex_conv ex_draws 5000 1 ex_server1]
      inbound_frame_policy [of "Some (JNum (Fin 3))" ex_conv ex_draws 5000 1 ex_server1]
      inbound_frame_policy [of "Some ex_unknown_frame" ex_conv ex_draws 5000 1 ex_server1]
      inbound_frame_policy [of "Some ex_paddle_frame" ex_conv ex_draws 5000 3 ex_server1]
      inbound_frame_policy [of "Some ex_rematch_frame" ex_conv ex_draws 5000 1 ex_server1]
      t p r3 ph o
    by (simp add: ex_unknown_frame_def del: One_nat_def)
qed

text \<open>
  The claim as stated fails for a frame that is a JSON array: it is not a JSON object, yet
  it is not discarded silently; the sender receives the \<open>Unknown message type\<close> error.
\<close>

theorem array_frame_is_answered:
  "on_message ex_conv ex_draws 5000 1 (Some (JArr [])) ex_server1 =
     Inr (send_all [(1, ErrorMsg ''Unknown message type'')] ex_server1) \<and>
   on_message ex_conv ex_draws 5000 1 (Some (JArr [])) ex_server1 \<noteq> Inr ex_server1"
proof -
  have e: "on_message ex_conv ex_draws 5000 1 (Some (JArr [])) ex_server1 =
     Inr (send_all [(1, ErrorMsg ''Unknown message type'')] ex_server1)"
    by (simp add: on_message_def not_object_def get_prop_def safeSend_def ex_server1_sessions
        Let_def del: One_nat_def)
  have "outbox (send_all [(1, ErrorMsg ''Unknown message type'')] ex_server1) \<noteq> outbox ex_server1"
    by (simp add: send_all_fields)
  then have "send_all [(1, ErrorMsg ''Unknown message type'')] ex_server1 \<noteq> ex_server1"
    by auto
  with e show ?thesis by simp
qed

section \<open>The traces cover the server\<close>

text \<open>
  Every handler of the server keeps each registered room on a trace: a new room (from
  matchmaking or from a rematch) starts one, and the message handler, the close and error
  handlers and the two timers change a room only by steps of the trace predicate. The
  registry is empty at startup, so every room the server ever holds satisfies the
  statements proved of traces above.
\<close>

lemma rooms_traced_put:
  "rooms_traced s \<Longrightarrow> after_misses n rm \<Longrightarrow> rooms_traced (put_room rid rm s)"
  by (auto simp add: rooms_traced_def put_room_def)

lemma rooms_traced_same:
  "rooms s' = rooms s \<Longrightarrow> rooms_traced s \<Longrightarrow> rooms_traced s'"
  by (simp add: rooms_traced_def)

lemma rooms_traced_destroy: "rooms_traced s \<Longrightarrow> rooms_traced (destroyRoom rid s)"
  by (simp add: rooms_traced_def destroyRoom_fields)

lemma makeRoom_fresh:
  "after_misses 0 (fst (makeRoom newid r1 r2 now a b sw s))"
  by (rule after_misses.start) (simp_all add: makeRoom_defs split: prod.splits)

lemma rooms_traced_makeRoom:
  "rooms_traced s \<Longrightarrow> rooms_traced (snd (makeRoom newid r1 r2 now a b sw s))"
  using makeRoom_fresh [of newid r1 r2 now a b sw s]
  by (auto simp add: rooms_traced_def makeRoom_rooms)

lemma rooms_traced_pair_loop:
  "rooms_traced s \<Longrightarrow> rooms_traced (pair_loop d k now q s)"
proof (induction d k now q s rule: pair_loop.induct)
  case (1 d k now a b rest s)
  have s1: "rooms_traced (s\<lparr>waitingQueue := rest\<rparr>)"
    using "1.prems" by (simp add: rooms_traced_def)
  show ?case
  proof (cases "\<not> readyOpen (sessions s a) \<or> \<not> readyOpen (sessions s b)")
    case True
    then show ?thesis using "1.IH"(1) [OF refl _ s1] by simp
  next
    case False
    obtain newid rndSide rndServe where dk: "d k = (newid, rndSide, rndServe)"
      by (cases "d k") auto
    have "rooms_traced (snd (makeRoom newid rndSide rndServe now a b False (s\<lparr>waitingQueue := rest\<rparr>)))"
      using s1 by (rule rooms_traced_makeRoom)
    then show ?thesis
      using False dk
        "1.IH"(2) [of "s\<lparr>waitingQueue := rest\<rparr>" newid "(rndSide, rndServe)" rndSide rndServe]
      by simp
  qed
qed simp_all

lemma rooms_traced_tryMatch: "rooms_traced s \<Longrightarrow> rooms_traced (tryMatch d now s)"
  unfolding tryMatch_def Let_def
  by (rule rooms_traced_pair_loop) (simp add: rooms_traced_def)


lemma rooms_traced_send: "rooms_traced s \<Longrightarrow> rooms_traced (send_all fs s)"
  by (simp add: rooms_traced_def send_all_fields)

lemma rooms_traced_upd_session: "rooms_traced s \<Longrightarrow> rooms_traced (upd_session a f s)"
  by (simp add: rooms_traced_def upd_session_def)

lemma rooms_traced_lookup: "rooms_traced s \<Longrightarrow> rooms s rid = Some rm \<Longrightarrow> \<exists>n. after_misses n rm"
  by (simp add: rooms_traced_def)

lemma rooms_traced_startRematch:
  assumes "rooms_traced s" and "startRematch newid rnd now old s = Inr s'"
  shows "rooms_traced s'"
proof (cases "rooms s old")
  case None
  with assms show ?thesis by (simp add: startRematch_def)
next
  case (Some rm)
  obtain n where n: "after_misses n rm"
    using rooms_traced_lookup [OF assms(1) Some] by blast
  define s1 where "s1 = put_room old (rm\<lparr>vote_top := False, vote_bottom := False\<rparr>) s"
  have t1: "rooms_traced s1"
    unfolding s1_def using assms(1) after_misses.vote [OF n] by (rule rooms_traced_put)
  obtain a b where ab: "ws (top_pl rm) = Some a" "ws (bottom_pl rm) = Some b"
    using assms(2) Some by (auto simp add: startRematch_def Let_def split: option.splits)
  define mk where "mk = makeRoom newid 0 rnd now a b True s1"
  define nr where "nr = (fst mk)\<lparr>
      top_pl := (top_pl (fst mk))\<lparr>hearts := HEARTS_START\<rparr>,
      bottom_pl := (bottom_pl (fst mk))\<lparr>hearts := HEARTS_START\<rparr>,
      phase := Countdown, nextPhaseAt := now + 3000\<rparr>"
  define s3 where "s3 = put_room newid nr (snd mk)"
  define s4 where "s4 = send_all (broadcastEvent (sessions s3) nr (RematchStart 3)) s3"
  have res: "s' = destroyRoom (id_r rm) s4"
    using assms(2) Some ab
    by (simp add: startRematch_def Let_def case_prod_beta s1_def mk_def nr_def s3_def s4_def)
  have "after_misses 0 nr"
    by (rule after_misses.start) (simp_all add: nr_def)
  moreover have "rooms_traced (snd mk)"
    unfolding mk_def using t1 by (rule rooms_traced_makeRoom)
  ultimately have "rooms_traced s3"
    unfolding s3_def by (rule rooms_traced_put [rotated])
  then show ?thesis
    unfolding res s4_def by (intro rooms_traced_destroy rooms_traced_send)
qed

lemma rooms_traced_requestRematch:
  assumes "rooms_traced s" and "requestRematch newid rnd now ref sd s = Inr s'"
  shows "rooms_traced s'"
proof (cases "rooms s ref")
  case None
  with assms show ?thesis by (simp add: requestRematch_def)
next
  case (Some rm)
  obtain n where n: "after_misses n rm"
    using rooms_traced_lookup [OF assms(1) Some] by blast
  define rm1 where "rm1 = (case sd of Top \<Rightarrow> rm\<lparr>vote_top := True\<rparr> | Bottom \<Rightarrow> rm\<lparr>vote_bottom := True\<rparr>)"
  have "rm1 = rm\<lparr>vote_top := (sd = Top \<or> vote_top rm), vote_bottom := (sd = Bottom \<or> vote_bottom rm)\<rparr>"
    by (cases sd) (simp_all add: rm1_def)
  then have "after_misses n rm1"
    using after_misses.vote [OF n] by simp
  then have t2: "rooms_traced (send_all (safeSend (sessions (put_room ref rm1 s))
      (ws (player_of rm1 (opponentSide sd))) RematchOffered) (put_room ref rm1 s))"
    using assms(1) by (intro rooms_traced_send rooms_traced_put)
  show ?thesis
  proof (cases "phase rm = Gameover")
    case False
    with assms Some show ?thesis by (simp add: requestRematch_def)
  next
    case True
    show ?thesis
    proof (cases "vote_top rm1 \<and> vote_bottom rm1")
      case True
      with \<open>phase rm = Gameover\<close> assms(2) Some
      have "startRematch newid rnd now ref (send_all (safeSend (sessions (put_room ref rm1 s))
          (ws (player_of rm1 (opponentSide sd))) RematchOffered) (put_room ref rm1 s)) = Inr s'"
        by (simp add: requestRematch_def Let_def rm1_def)
      with t2 show ?thesis by (rule rooms_traced_startRematch)
    next
      case False
      with \<open>phase rm = Gameover\<close> assms(2) Some
      have "s' = send_all (safeSend (sessions (put_room ref rm1 s))
          (ws (player_of rm1 (opponentSide sd))) RematchOffered) (put_room ref rm1 s)"
        by (auto simp add: requestRematch_def Let_def rm1_def)
      with t2 show ?thesis by simp
    qed
  qed
qed

lemma rooms_traced_leaveRoom:
  assumes "rooms_traced s" and "leaveRoom a s = Inr s'"
  shows "rooms_traced s'"
proof (cases "roomId (sessions s a)")
  case None
  with assms show ?thesis by (simp add: leaveRoom_def)
next
  case (Some rid)
  show ?thesis
  proof (cases "rooms s rid")
    case None
    with assms Some show ?thesis
      by (auto simp add: leaveRoom_def intro: rooms_traced_upd_session)
  next
    case (Some rm)
    obtain n where n: "after_misses n rm"
      using rooms_traced_lookup [OF assms(1) Some] by blast
    obtain sd where sd: "side_s (sessions s a) = Some sd"
      using assms(2) Some \<open>roomId (sessions s a) = Some rid\<close>
      by (auto simp add: leaveRoom_def split: option.splits)
    have l: "after_misses n (set_player sd ((player_of rm sd)\<lparr>ws := None\<rparr>) rm)"
      using n by (rule after_misses.leave)
    define s1 where "s1 = (if phase rm \<noteq> Gameover
          \<and> (case ws (player_of rm (opponentSide sd)) of None \<Rightarrow> False
              | Some q \<Rightarrow> readyOpen (sessions s q))
        then send_all (broadcastEvent (sessions s) rm
               (GameOver (Some (opponentSide sd)) ''disconnect'' (hearts_of rm))) s
        else s)"
    define rm1 where "rm1 = set_player sd ((player_of rm sd)\<lparr>ws := None\<rparr>) rm"
    define s3 where "s3 = (if ws (top_pl rm1) = None \<and> ws (bottom_pl rm1) = None
        then destroyRoom (id_r rm1) (put_room rid rm1 s1) else put_room rid rm1 s1)"
    have res: "s' = upd_session a (\<lambda>c. c\<lparr>roomId := None, side_s := None\<rparr>) s3"
      using assms(2) Some sd \<open>roomId (sessions s a) = Some rid\<close>
      by (auto simp add: leaveRoom_def Let_def s1_def rm1_def s3_def)
    have "rooms_traced s1"
      using assms(1) by (simp add: s1_def rooms_traced_send)
    then have "rooms_traced (put_room rid rm1 s1)"
      using l unfolding rm1_def by (rule rooms_traced_put)
    then have "rooms_traced s3"
      by (simp add: s3_def rooms_traced_destroy)
    then show ?thesis
      unfolding res by (rule rooms_traced_upd_session)
  qed
qed


lemma rooms_traced_on_message:
  assumes "rooms_traced s" and "on_message conv d now a data s = Inr s'"
  shows "rooms_traced s'"
proof (cases data)
  case None
  with assms show ?thesis by (simp add: on_message_def)
next
  case (Some m)
  show ?thesis
  proof (cases "not_object m")
    case True
    with assms Some show ?thesis by (simp add: on_message_def)
  next
    case False
    define ty where "ty = get_prop m ''type''"
    consider (join) "ty = Some (JStr ''joinQueue'')"
      | (cancel) "ty = Some (JStr ''cancelQueue'')"
      | (paddle) "ty = Some (JStr ''paddle'')"
      | (rematch) "ty = Some (JStr ''rematchRequest'')"
      | (leave) "ty = Some (JStr ''leaveRoom'')"
      | (other) "ty \<noteq> Some (JStr ''joinQueue'')" "ty \<noteq> Some (JStr ''cancelQueue'')"
          "ty \<noteq> Some (JStr ''paddle'')" "ty \<noteq> Some (JStr ''rematchRequest'')"
          "ty \<noteq> Some (JStr ''leaveRoom'')"
      by blast
    then show ?thesis
    proof cases
      case join
      define s1 where "s1 = upd_session a (\<lambda>c. c\<lparr>name_s := sanitizeName (get_prop m ''name'')\<rparr>) s"
      define s2 where "s2 = s1\<lparr>waitingQueue := waitingQueue s1 @ [a]\<rparr>"
      define s3 where "s3 = send_all (safeSend (sessions s2) (Some a)
          (Finding (length (waitingQueue s2)))) s2"
      have res: "s' = tryMatch d now s3 \<or> s' = s1"
        using assms(2) Some False join
        by (auto simp add: on_message_def Let_def ty_def s1_def s2_def s3_def split: if_splits)
      have t1: "rooms_traced s1"
        unfolding s1_def using assms(1) by (rule rooms_traced_upd_session)
      then have "rooms_traced s2"
        by (simp add: s2_def rooms_traced_def)
      then have "rooms_traced s3"
        unfolding s3_def by (rule rooms_traced_send)
      then have "rooms_traced (tryMatch d now s3)"
        by (rule rooms_traced_tryMatch)
      with t1 res show ?thesis by blast
    next
      case cancel
      have q: "\<And>s0 q. rooms_traced s0 \<Longrightarrow> rooms_traced (s0\<lparr>waitingQueue := q\<rparr>)"
        by (simp add: rooms_traced_def)
      show ?thesis
        using assms Some False cancel
        by (auto simp add: on_message_def Let_def ty_def intro!: rooms_traced_send q)
    next
      case paddle
      have "\<And>rid rm p. rooms s rid = Some rm \<Longrightarrow> rooms_traced (put_room rid (rm\<lparr>paddles := p\<rparr>) s)"
        using rooms_traced_lookup [OF assms(1)] after_misses.input rooms_traced_put [OF assms(1)]
        by blast
      then show ?thesis
        using assms Some False paddle
        by (auto simp add: on_message_def Let_def ty_def split: option.splits if_splits)
    next
      case rematch
      show ?thesis
        using assms Some False rematch rooms_traced_requestRematch [OF assms(1)]
        by (auto simp add: on_message_def Let_def ty_def split: option.splits prod.splits)
    next
      case leave
      show ?thesis
        using assms Some False leave rooms_traced_leaveRoom [OF assms(1)]
        by (auto simp add: on_message_def Let_def ty_def)
    next
      case other
      show ?thesis
        using assms Some False other
        by (auto simp add: on_message_def Let_def ty_def intro!: rooms_traced_send)
    qed
  qed
qed

lemma rooms_traced_on_close:
  assumes "rooms_traced s"
  shows "on_close a s = Inr s' \<Longrightarrow> rooms_traced s'"
    and "on_error a s = Inr s' \<Longrightarrow> rooms_traced s'"
proof -
  have q: "rooms_traced (s\<lparr>waitingQueue := remove1 a (waitingQueue s)\<rparr>)"
    using assms by (simp add: rooms_traced_def)
  have c: "\<And>s0 c. rooms_traced s0 \<Longrightarrow> rooms_traced (s0\<lparr>clients := c\<rparr>)"
    by (simp add: rooms_traced_def)
  show "on_close a s = Inr s' \<Longrightarrow> rooms_traced s'"
    using rooms_traced_leaveRoom [OF q, of a] c
    by (auto simp add: on_close_def Let_def split: sum.splits)
  show "on_error a s = Inr s' \<Longrightarrow> rooms_traced s'"
    using rooms_traced_leaveRoom [OF q, of a] c
    by (auto simp add: on_error_def Let_def split: sum.splits)
qed

lemma rooms_traced_timers:
  assumes "rooms_traced s"
  shows "rooms_traced (tick_timer t rnd ref s)" and "rooms_traced (send_timer t ref s)"
proof -
  show "rooms_traced (tick_timer t rnd ref s)"
  proof (cases "rooms s ref")
    case None
    with assms show ?thesis by (simp add: tick_timer_def)
  next
    case (Some rm)
    obtain n where "after_misses n rm"
      using rooms_traced_lookup [OF assms Some] by blast
    then have "\<exists>k. after_misses k (fst (tick (sessions s) t rnd rm))"
      using tick_after_misses [of n rm "sessions s" t rnd] by blast
    then have "rooms_traced (put_room ref (fst (tick (sessions s) t rnd rm)) s)"
      using rooms_traced_put [OF assms] by blast
    then show ?thesis
      using assms Some
      by (auto simp add: tick_timer_def case_prod_beta intro: rooms_traced_send)
  qed
  show "rooms_traced (send_timer t ref s)"
    using assms by (simp add: send_timer_def rooms_traced_send split: option.splits)
qed

end
